theory Spec2Isabelle
  imports Complex_Main "HOL-Library.AList" "HOL-Library.Multiset" "HOL-Library.Word"
begin

unbundle bit_operations_syntax

section \<open>JavaScript values and plain objects\<close>

text \<open>
  The proxy (\<^verbatim>\<open>src/index.js\<close>) moves JavaScript values around without looking inside
  them: query-string values, the parsed JSON body of a request, tool arguments.  A value
  is one of the JSON shapes; \<^verbatim>\<open>undefined\<close> is the \<open>None\<close> of an option at the
  places where the code can meet it.  A \<open>string\<close> is the sequence of the code units of
  a JavaScript string (here the units below 256).  Numbers are never computed with by
  the proxy; their payload is kept as a real.

  A plain object is an association list of its own enumerable properties in the order
  of their creation: the value of property \<open>k\<close> is \<open>map_of o k\<close>, and a key counts at
  its first occurrence (\<open>AList.clearjunk\<close>).  An object parsed from JSON text has its
  properties created in the order of the text.
\<close>

datatype jsval =
    JNull
  | JBool bool
  | JNum real
  | JStr string
  | JArr "jsval list"
  | JObj "(string \<times> jsval) list"

type_synonym obj = "(string \<times> jsval) list"

text \<open>What a thrown JavaScript error carries as far as the proxy reads it: its message.\<close>

datatype exn = Error string | TypeError string

fun message :: "exn \<Rightarrow> string" where
  "message (Error m) = m"
| "message (TypeError m) = m"

fun truthy :: "jsval \<Rightarrow> bool" where
  "truthy JNull = False"
| "truthy (JBool b) = b"
| "truthy (JNum x) = (x \<noteq> 0)"
| "truthy (JStr s) = (s \<noteq> [])"
| "truthy (JArr xs) = True"
| "truthy (JObj kvs) = True"

text \<open>
  \<^verbatim>\<open>o[k] = v\<close> on an object created by \<^verbatim>\<open>{}\<close>.  An existing own property keeps its
  place, a new one goes last.  The key \<^verbatim>\<open>__proto__\<close> is not stored: the assignment
  reaches the accessor that \<^verbatim>\<open>Object.prototype\<close> defines under that name, which
  changes or keeps the prototype and creates no own property.
\<close>

definition obj_set :: "string \<Rightarrow> 'v \<Rightarrow> (string \<times> 'v) list \<Rightarrow> (string \<times> 'v) list" where
  "obj_set k v ob = (if k = ''__proto__'' then ob else AList.update k v ob)"

text \<open>
  The order in which JavaScript enumerates the own properties of an object
  (\<^verbatim>\<open>Object.entries\<close>, \<^verbatim>\<open>Object.keys\<close>, spread, \<^verbatim>\<open>JSON.stringify\<close>): first the
  keys that are array indices (the decimal form, without leading zeros, of a number below
  \<open>2^32 - 1\<close>) in ascending numeric order, then the other keys in the order of their
  creation.
\<close>

definition is_digit :: "char \<Rightarrow> bool" where
  "is_digit c \<longleftrightarrow> c \<in> set ''0123456789''"

definition index_value :: "string \<Rightarrow> nat" where
  "index_value k = foldl (\<lambda>n c. 10 * n + (of_char c - 48)) 0 k"

definition is_array_index :: "string \<Rightarrow> bool" where
  "is_array_index k \<longleftrightarrow>
     k \<noteq> [] \<and> list_all is_digit k \<and> (k = ''0'' \<or> hd k \<noteq> CHR ''0'') \<and>
     index_value k < 2 ^ 32 - 1"

definition own_keys_order :: "(string \<times> 'v) list \<Rightarrow> (string \<times> 'v) list" where
  "own_keys_order ps =
     sort_key (\<lambda>p. index_value (fst p)) (filter (\<lambda>p. is_array_index (fst p)) ps) @
     filter (\<lambda>p. \<not> is_array_index (fst p)) ps"

definition Object_entries :: "(string \<times> 'v) list \<Rightarrow> (string \<times> 'v) list" where
  "Object_entries ob = own_keys_order (AList.clearjunk ob)"

text \<open>
  Object spread \<^verbatim>\<open>{...target, ...source}\<close> and \<^verbatim>\<open>Object.fromEntries\<close> define own
  properties directly (no accessor is called), the spread in the order in which the
  source enumerates its keys.
\<close>

definition spread_into :: "(string \<times> 'v) list \<Rightarrow> (string \<times> 'v) list \<Rightarrow> (string \<times> 'v) list" where
  "spread_into target source =
     fold (\<lambda>(k, v) acc. AList.update k v acc) (Object_entries source) target"

definition Object_fromEntries :: "(string \<times> 'v) list \<Rightarrow> (string \<times> 'v) list" where
  "Object_fromEntries entries = fold (\<lambda>(k, v) acc. AList.update k v acc) entries []"

section \<open>Strings and numbers as the code prints them\<close>

definition digit_char :: "nat \<Rightarrow> char" where
  "digit_char d = ''0123456789abcdef'' ! d"

fun radix_digits :: "nat \<Rightarrow> nat \<Rightarrow> string" where
  "radix_digits b n =
     (if b < 2 \<or> n < b then [digit_char n]
      else radix_digits b (n div b) @ [digit_char (n mod b)])"

declare radix_digits.simps [simp del]

text \<open>\<^verbatim>\<open>String(n)\<close> for an integer-valued number (below \<open>10^21\<close> in magnitude).\<close>

definition Number_toString :: "int \<Rightarrow> string" where
  "Number_toString n =
     (if n < 0 then CHR ''-'' # radix_digits 10 (nat (- n)) else radix_digits 10 (nat n))"

text \<open>\<^verbatim>\<open>s.split(' ')\<close>: every separator ends a piece, so the result is never empty.\<close>

fun split :: "char \<Rightarrow> string \<Rightarrow> string list" where
  "split sep [] = [[]]"
| "split sep (c # cs) =
     (if c = sep then [] # split sep cs
      else (case split sep cs of [] \<Rightarrow> [[c]] | p # ps \<Rightarrow> (c # p) # ps))"

text \<open>\<^verbatim>\<open>s.indexOf(c)\<close> is \<open>-1\<close> when \<open>c\<close> does not occur.\<close>

definition indexOf :: "string \<Rightarrow> char \<Rightarrow> int" where
  "indexOf s c = (if c \<in> set s then int (length (takeWhile (\<lambda>x. x \<noteq> c) s)) else - 1)"

text \<open>\<^verbatim>\<open>s.substring(a, b)\<close> and \<^verbatim>\<open>s.substring(a)\<close> for \<open>0 \<le> a \<le> b\<close>, as the parser calls them.\<close>

definition substring :: "string \<Rightarrow> int \<Rightarrow> int \<Rightarrow> string" where
  "substring s a b = take (nat b - nat a) (drop (nat a) s)"

definition substring_from :: "string \<Rightarrow> int \<Rightarrow> string" where
  "substring_from s a = drop (nat a) s"

section \<open>The selector parser\<close>

text \<open>
  \<^verbatim>\<open>parseToolAndParams(toolQuery)\<close>, lines 193-215.  The loop over
  \<^verbatim>\<open>parts[1..]\<close> is \<open>parse_parts\<close>.  A falsy argument gives the name \<^verbatim>\<open>null\<close>
  (\<open>None\<close>); an argument that is truthy and not a string has no \<^verbatim>\<open>split\<close> method, and
  the call throws a \<^verbatim>\<open>TypeError\<close>.
\<close>

fun parse_parts :: "string list \<Rightarrow> obj \<Rightarrow> obj" where
  "parse_parts [] params = params"
| "parse_parts (paramPart # rest) params =
     (let equalIndex = indexOf paramPart CHR ''=''
      in if equalIndex > 0
         then parse_parts rest
                (obj_set (substring paramPart 0 equalIndex)
                         (JStr (substring_from paramPart (equalIndex + 1))) params)
         else parse_parts rest params)"

fun parseToolAndParams :: "jsval option \<Rightarrow> exn + (string option \<times> obj)" where
  "parseToolAndParams None = Inr (None, [])"
| "parseToolAndParams (Some (JStr toolQuery)) =
     (if toolQuery = [] then Inr (None, [])
      else (case split CHR '' '' toolQuery of
              [] \<Rightarrow> Inr (None, [])
            | toolName # rest \<Rightarrow> Inr (Some toolName, parse_parts rest [])))"
| "parseToolAndParams (Some v) =
     (if truthy v then Inl (TypeError ''toolQuery.split is not a function'')
      else Inr (None, []))"

section \<open>Tools, backends and the proxy's state\<close>

text \<open>
  A tool descriptor as a backend lists it.  \<open>properties\<close> is the schema's property
  object in its enumeration order; each property schema is an object, of which the
  proxy reads the \<^verbatim>\<open>type\<close> tag.
\<close>

record param_schema =
  schema_type :: "jsval option"
  schema_description :: "string option"

record input_schema =
  properties :: "(string \<times> param_schema) list option"
  required :: "string list option"

record tool =
  name :: string
  description :: "string option"
  inputSchema :: "input_schema option"

record tool_info =
  serverName :: string
  tool :: tool

text \<open>
  The backend capability.  \<^verbatim>\<open>client.callTool\<close> resolves with a result, of which the
  proxy reads \<^verbatim>\<open>content\<close>, or rejects with an error, of which it reads the message;
  \<^verbatim>\<open>client.listTools\<close> likewise resolves with a response that may carry
  \<^verbatim>\<open>tools\<close>.
\<close>

datatype 'a promised = Resolved 'a | Rejected string

record tools_response =
  tools :: "tool list option"

record client =
  listTools :: "tools_response promised"
  callTool :: "string \<Rightarrow> obj \<Rightarrow> jsval option promised"

record server_config =
  command :: string
  args :: "string list option"

text \<open>
  The module-level state (\<^verbatim>\<open>mcpClients\<close>, \<^verbatim>\<open>availableTools\<close>: two \<^verbatim>\<open>Map\<close>s, kept
  in insertion order) and the effects of the proxy: the lines written through the four
  logging functions, the calls made to backends, and the clock.  \<open>clock i\<close> is what
  the \<open>i\<close>-th call of \<^verbatim>\<open>Date.now()\<close> returns.  The timestamp and the glyph that
  start a logged line are left out of its text, as is a glyph that starts a message.
\<close>

datatype line_kind = Info | Success | Warning | Failure | Detail

record proxy_state =
  mcpClients :: "(string \<times> client) list"
  availableTools :: "(string \<times> tool_info) list"
  console :: "(line_kind \<times> string) list"
  backend_calls :: "(string \<times> string \<times> obj) list"
  clock :: "nat \<Rightarrow> int"
  clock_reads :: nat

definition Date_now :: "proxy_state \<Rightarrow> int \<times> proxy_state" where
  "Date_now s = (clock s (clock_reads s), s\<lparr>clock_reads := Suc (clock_reads s)\<rparr>)"

definition log_line :: "line_kind \<Rightarrow> string \<Rightarrow> string option \<Rightarrow> proxy_state \<Rightarrow> proxy_state" where
  "log_line kind msg details s =
     s\<lparr>console := console s @ (kind, msg) #
        (case details of
           None \<Rightarrow> []
         | Some d \<Rightarrow> if d = [] then [] else [(Detail, d)])\<rparr>"

definition logInfo :: "string \<Rightarrow> string option \<Rightarrow> proxy_state \<Rightarrow> proxy_state" where
  "logInfo = log_line Info"

definition logSuccess :: "string \<Rightarrow> string option \<Rightarrow> proxy_state \<Rightarrow> proxy_state" where
  "logSuccess = log_line Success"

definition logWarning :: "string \<Rightarrow> string option \<Rightarrow> proxy_state \<Rightarrow> proxy_state" where
  "logWarning = log_line Warning"

definition logError :: "string \<Rightarrow> string option \<Rightarrow> proxy_state \<Rightarrow> proxy_state" where
  "logError = log_line Failure"

definition join :: "string \<Rightarrow> string list \<Rightarrow> string" where
  "join sep xs = (case xs of [] \<Rightarrow> [] | y # ys \<Rightarrow> y @ concat (map (\<lambda>z. sep @ z) ys))"

section \<open>Discovery\<close>

text \<open>
  \<^verbatim>\<open>initializeMCPServers\<close>, lines 44-95.  \<open>connect\<close> stands for starting the
  backend configured under a name and connecting to it
  (\<^verbatim>\<open>client.connect(transport)\<close>); the settings are what \<^verbatim>\<open>loadSettings\<close> returned.  \<open>register\<close> is the
  \<^verbatim>\<open>forEach\<close> of lines 82-84, \<open>discover\<close> one turn of the loop with its
  \<^verbatim>\<open>try\<close>/\<^verbatim>\<open>catch\<close>.  Of what \<^verbatim>\<open>printAvailableTools\<close> (lines 98-179) prints
  after the loop, the state records the lines written through \<^verbatim>\<open>logInfo\<close> and
  \<^verbatim>\<open>logWarning\<close>; the summary itself goes to \<^verbatim>\<open>console.log\<close> directly.  It reads
  the type tag of each property schema, which is an object here, so it does not throw.
\<close>

record settings =
  mcpServers :: "(string \<times> server_config) list option"

definition register :: "string \<Rightarrow> tool list \<Rightarrow> (string \<times> tool_info) list \<Rightarrow> (string \<times> tool_info) list" where
  "register server ts reg =
     fold (\<lambda>t acc. AList.update (name t) \<lparr>serverName = server, tool = t\<rparr> acc) ts reg"

definition discover ::
  "(string \<Rightarrow> server_config \<Rightarrow> client promised) \<Rightarrow> string \<times> server_config \<Rightarrow> proxy_state \<Rightarrow> proxy_state" where
  "discover connect entry s0 =
     (let server = fst entry; serverConfig = snd entry;
          s1 = logInfo (''Connecting to MCP server: '' @ server) None s0;
          s2 = logInfo (''   Command: '' @ command serverConfig @ '' '' @
                 join '' '' (case args serverConfig of None \<Rightarrow> [] | Some as \<Rightarrow> as)) None s1
      in case connect server serverConfig of
           Rejected msg \<Rightarrow>
             logError (''Failed to connect to MCP server '' @ server) (Some msg) s2
         | Resolved cl \<Rightarrow>
             (let s3 = s2\<lparr>mcpClients := AList.update server cl (mcpClients s2)\<rparr>
              in case listTools cl of
                   Rejected msg \<Rightarrow>
                     logError (''Failed to connect to MCP server '' @ server) (Some msg) s3
                 | Resolved toolsResponse \<Rightarrow>
                     (let s4 = (case tools toolsResponse of
                                  None \<Rightarrow> s3
                                | Some ts \<Rightarrow>
                                    s3\<lparr>availableTools := register server ts (availableTools s3)\<rparr>)
                      in logSuccess (''Connected to '' @ server)
                           (Some (Number_toString
                                    (case tools toolsResponse of
                                       None \<Rightarrow> 0
                                     | Some ts \<Rightarrow> int (length ts)) @
                                  '' tools discovered'')) s4)))"

definition printAvailableTools :: "proxy_state \<Rightarrow> proxy_state" where
  "printAvailableTools s0 =
     (let s1 = logInfo ''Generating tools summary...'' None s0
      in if length (availableTools s1) = 0
         then logWarning ''No tools available from connected MCP servers'' None s1
         else s1)"

definition initializeMCPServers ::
  "(string \<Rightarrow> server_config \<Rightarrow> client promised) \<Rightarrow> settings \<Rightarrow> proxy_state \<Rightarrow> proxy_state" where
  "initializeMCPServers connect st s0 =
     (case mcpServers st of
        None \<Rightarrow> logWarning ''No MCP servers configured in settings'' None s0
      | Some servers \<Rightarrow>
          (let s1 = logInfo ''Initializing MCP Server Connections...'' None s0;
               s2 = logInfo (''Found '' @ Number_toString (int (length (Object_entries servers))) @
                      '' MCP server(s) in configuration'') None s1
           in printAvailableTools (fold (discover connect) (Object_entries servers) s2)))"

text \<open>
  For the statements about discovery: the registrations that the loop performs, in
  order, one per tool that a backend listed after connecting.
\<close>

definition listed_tools ::
  "(string \<Rightarrow> server_config \<Rightarrow> client promised) \<Rightarrow> string \<Rightarrow> server_config \<Rightarrow> tool list" where
  "listed_tools connect server serverConfig =
     (case connect server serverConfig of
        Rejected msg \<Rightarrow> []
      | Resolved cl \<Rightarrow>
          (case listTools cl of
             Rejected msg \<Rightarrow> []
           | Resolved r \<Rightarrow> (case tools r of None \<Rightarrow> [] | Some ts \<Rightarrow> ts)))"

definition registrations ::
  "(string \<Rightarrow> server_config \<Rightarrow> client promised) \<Rightarrow> (string \<times> server_config) list \<Rightarrow> (string \<times> tool_info) list" where
  "registrations connect servers =
     concat (map (\<lambda>(server, serverConfig).
                    map (\<lambda>t. (name t, \<lparr>serverName = server, tool = t\<rparr>))
                        (listed_tools connect server serverConfig))
                 servers)"

definition bindings :: "string \<Rightarrow> tool list \<Rightarrow> (string \<times> tool_info) list" where
  "bindings server ts = map (\<lambda>t. (name t, \<lparr>serverName = server, tool = t\<rparr>)) ts"

section \<open>Invocation\<close>

text \<open>\<^verbatim>\<open>invokeTool(toolName, args)\<close>, lines 257-296.\<close>

record invoke_result =
  success :: bool
  result :: "jsval option"
  res_tool :: string
  res_server :: string
  executionTime :: int

definition invokeTool :: "string \<Rightarrow> obj \<Rightarrow> proxy_state \<Rightarrow> (exn + invoke_result) \<times> proxy_state" where
  "invokeTool toolName arguments s0 =
     (let (startTime, s1) = Date_now s0
      in case map_of (availableTools s1) toolName of
           None \<Rightarrow>
             (Inl (Error (''Tool '' @ [CHR 0x27] @ toolName @ [CHR 0x27] @ '' not found'')),
              logError (''Tool not found: '' @ toolName) None s1)
         | Some toolInfo \<Rightarrow>
             (case map_of (mcpClients s1) (serverName toolInfo) of
                None \<Rightarrow>
                  (Inl (Error (''MCP server '' @ [CHR 0x27] @ serverName toolInfo @ [CHR 0x27] @
                               '' not connected'')),
                   logError (''MCP server not connected: '' @ serverName toolInfo) None s1)
              | Some cl \<Rightarrow>
                  (let s2 = logInfo (''Executing tool: '' @ toolName)
                              (Some (''Server: '' @ serverName toolInfo @ '', Args: '' @
                                     Number_toString (int (length (Object_entries arguments))) @
                                     '' parameters'')) s1;
                       s3 = s2\<lparr>backend_calls :=
                                 backend_calls s2 @ [(serverName toolInfo, toolName, arguments)]\<rparr>
                   in case callTool cl toolName arguments of
                        Resolved content \<Rightarrow>
                          (let (endTime, s4) = Date_now s3;
                               elapsed = endTime - startTime
                           in (Inr \<lparr>success = True, result = content, res_tool = toolName,
                                    res_server = serverName toolInfo, executionTime = elapsed\<rparr>,
                               logSuccess (''Tool executed successfully: '' @ toolName)
                                 (Some (''Completed in '' @ Number_toString elapsed @ ''ms'')) s4))
                      | Rejected msg \<Rightarrow>
                          (let (endTime, s4) = Date_now s3;
                               elapsed = endTime - startTime
                           in (Inl (Error (''Tool execution failed: '' @ msg)),
                               logError (''Tool execution failed: '' @ toolName)
                                 (Some (''Error after '' @ Number_toString elapsed @ ''ms: '' @ msg))
                                 s4)))))"

section \<open>The request handlers\<close>

record request =
  headers :: "(string \<times> string) list"
  query :: obj
  body :: "jsval option"
  protocol :: string
  host :: "string option"

record tool_listing =
  listing_name :: string
  listing_server :: string
  listing_description :: "string option"
  listing_inputSchema :: "input_schema option"

record export_header =
  header_name :: string
  header_value :: string

record export_input =
  input_name :: string
  input_type :: jsval

record export_output =
  output_name :: string
  output_key :: string
  output_id :: string

record export_record =
  export_name :: string
  export_description :: string
  url :: string
  export_headers :: "export_header list"
  inputs :: "export_input list"
  outputs :: "export_output list"
  request_body :: string
  content_type :: string
  http_method :: string

text \<open>
  What a handler does with a request: it answers with a status and a JSON payload, or
  an exception leaves it.
\<close>

datatype payload =
    ErrorJson string
  | InvokeJson invoke_result
  | ToolsJson "tool_listing list"
  | SerializedJson "(string \<times> export_record) list"

datatype http_result = Response nat payload | Unhandled exn

text \<open>
  The middleware \<^verbatim>\<open>authenticateApiKey\<close>, lines 182-190: \<open>next\<close> is the handler
  that runs when the key is accepted.
\<close>

definition providedKey :: "request \<Rightarrow> jsval option" where
  "providedKey req =
     (case map_of (headers req) ''x-api-key'' of
        None \<Rightarrow> map_of (query req) ''api_key''
      | Some h \<Rightarrow> if h \<noteq> [] then Some (JStr h) else map_of (query req) ''api_key'')"

definition authenticateApiKey ::
  "string \<Rightarrow> request \<Rightarrow> (proxy_state \<Rightarrow> http_result \<times> proxy_state) \<Rightarrow>
   proxy_state \<Rightarrow> http_result \<times> proxy_state" where
  "authenticateApiKey apiKey req next s =
     (case providedKey req of
        None \<Rightarrow> (Response 401 (ErrorJson ''Invalid or missing API key''), s)
      | Some k \<Rightarrow>
          if \<not> truthy k \<or> k \<noteq> JStr apiKey
          then (Response 401 (ErrorJson ''Invalid or missing API key''), s)
          else next s)"

text \<open>
  The own enumerable properties that a spread \<^verbatim>\<open>...v\<close> copies: those of an object,
  the elements of an array and the units of a string under their indices, nothing for
  the other values and for \<^verbatim>\<open>undefined\<close>.
\<close>

fun spread_source :: "jsval option \<Rightarrow> obj" where
  "spread_source (Some (JObj kvs)) = kvs"
| "spread_source (Some (JArr xs)) =
     zip (map (\<lambda>i. Number_toString (int i)) [0..<length xs]) xs"
| "spread_source (Some (JStr s)) =
     zip (map (\<lambda>i. Number_toString (int i)) [0..<length s]) (map (\<lambda>c. JStr [c]) s)"
| "spread_source v = []"

text \<open>
  Line 227, \<^verbatim>\<open>{ ...params, ...additionalArgs }\<close>, and line 246,
  \<^verbatim>\<open>{ ...req.body, ...params }\<close>.
\<close>

definition get_args :: "obj \<Rightarrow> obj \<Rightarrow> obj" where
  "get_args params additionalArgs = spread_into (spread_into [] params) additionalArgs"

definition post_args :: "jsval option \<Rightarrow> obj \<Rightarrow> obj" where
  "post_args reqBody params = spread_into (spread_into [] (spread_source reqBody)) params"

text \<open>The answer of both tool handlers to what \<^verbatim>\<open>invokeTool\<close> returned or threw.\<close>

definition respond :: "(exn + invoke_result) \<times> proxy_state \<Rightarrow> http_result \<times> proxy_state" where
  "respond r =
     (case fst r of
        Inr res \<Rightarrow> (Response 200 (InvokeJson res), snd r)
      | Inl err \<Rightarrow> (Response 500 (ErrorJson (message err)), snd r))"

text \<open>\<^verbatim>\<open>app.get('/tool', ...)\<close>, lines 218-235.\<close>

definition get_tool_handler :: "request \<Rightarrow> proxy_state \<Rightarrow> http_result \<times> proxy_state" where
  "get_tool_handler req s =
     (let toolQuery = map_of (query req) ''tool'';
          additionalArgs = AList.delete ''tool'' (Object_entries (query req))
      in case parseToolAndParams toolQuery of
           Inl err \<Rightarrow> (Unhandled err, s)
         | Inr (toolName, params) \<Rightarrow>
             (case toolName of
                None \<Rightarrow> (Response 400 (ErrorJson ''Tool name is required as query parameter''), s)
              | Some n \<Rightarrow>
                  if n = []
                  then (Response 400 (ErrorJson ''Tool name is required as query parameter''), s)
                  else respond (invokeTool n (get_args params additionalArgs) s)))"

definition get_tool :: "string \<Rightarrow> request \<Rightarrow> proxy_state \<Rightarrow> http_result \<times> proxy_state" where
  "get_tool apiKey req = authenticateApiKey apiKey req (get_tool_handler req)"

text \<open>\<^verbatim>\<open>app.post('/tool', ...)\<close>, lines 237-254.\<close>

definition post_tool_handler :: "request \<Rightarrow> proxy_state \<Rightarrow> http_result \<times> proxy_state" where
  "post_tool_handler req s =
     (let toolQuery = map_of (query req) ''tool''
      in case parseToolAndParams toolQuery of
           Inl err \<Rightarrow> (Unhandled err, s)
         | Inr (toolName, params) \<Rightarrow>
             (case toolName of
                None \<Rightarrow> (Response 400 (ErrorJson ''Tool name is required as query parameter''), s)
              | Some n \<Rightarrow>
                  if n = []
                  then (Response 400 (ErrorJson ''Tool name is required as query parameter''), s)
                  else respond (invokeTool n (post_args (body req) params) s)))"

definition post_tool :: "string \<Rightarrow> request \<Rightarrow> proxy_state \<Rightarrow> http_result \<times> proxy_state" where
  "post_tool apiKey req = authenticateApiKey apiKey req (post_tool_handler req)"

text \<open>\<^verbatim>\<open>app.get('/tools', ...)\<close>, lines 299-308.\<close>

definition list_tools :: "(string \<times> tool_info) list \<Rightarrow> tool_listing list" where
  "list_tools reg =
     map (\<lambda>(n, info). \<lparr>listing_name = n, listing_server = serverName info,
                         listing_description = description (tool info),
                         listing_inputSchema = inputSchema (tool info)\<rparr>) reg"

definition get_tools :: "string \<Rightarrow> request \<Rightarrow> proxy_state \<Rightarrow> http_result \<times> proxy_state" where
  "get_tools apiKey req =
     authenticateApiKey apiKey req (\<lambda>s. (Response 200 (ToolsJson (list_tools (availableTools s))), s))"

section \<open>The export\<close>

text \<open>
  \<^verbatim>\<open>generateId(str)\<close>, lines 332-340, in JavaScript's arithmetic: \<^verbatim>\<open><<\<close> and
  \<^verbatim>\<open>&\<close> convert their operands to 32-bit signed integers (\<open>ToInt32\<close>); \<^verbatim>\<open>-\<close> and
  \<^verbatim>\<open>+\<close> add numbers, exactly at this size.  \<open>hash_loop\<close> runs over the code units
  of the string.
\<close>

definition ToInt32 :: "int \<Rightarrow> int" where
  "ToInt32 x = (x + 2 ^ 31) mod 2 ^ 32 - 2 ^ 31"

definition shiftLeft :: "int \<Rightarrow> nat \<Rightarrow> int" where
  "shiftLeft x n = ToInt32 (ToInt32 x * 2 ^ (n mod 32))"

definition bitAnd :: "int \<Rightarrow> int \<Rightarrow> int" where
  "bitAnd x y = (ToInt32 x) AND (ToInt32 y)"

fun hash_loop :: "int list \<Rightarrow> int \<Rightarrow> int" where
  "hash_loop [] hash = hash"
| "hash_loop (char # rest) hash =
     (let hash1 = (shiftLeft hash 5 - hash) + char
      in hash_loop rest (bitAnd hash1 hash1))"

definition charCodes :: "string \<Rightarrow> int list" where
  "charCodes str = map (\<lambda>c. int (of_char c)) str"

definition padStart :: "nat \<Rightarrow> char \<Rightarrow> string \<Rightarrow> string" where
  "padStart n c s = replicate (n - length s) c @ s"

definition render_id :: "int \<Rightarrow> string" where
  "render_id hash = padStart 12 CHR ''0'' (radix_digits 16 (nat \<bar>hash\<bar>))"

definition generateId :: "string \<Rightarrow> string" where
  "generateId str = render_id (hash_loop (charCodes str) 0)"

text \<open>
  \<^verbatim>\<open>JSON.stringify\<close> of a string, and of an object whose values are strings (the only
  shape the export passes to it).
\<close>

definition hex4 :: "nat \<Rightarrow> string" where
  "hex4 n = padStart 4 CHR ''0'' (radix_digits 16 n)"

definition json_escape :: "char \<Rightarrow> string" where
  "json_escape c =
     (if c = CHR 0x22 then [CHR 0x5C, CHR 0x22]
      else if c = CHR 0x5C then [CHR 0x5C, CHR 0x5C]
      else if c = CHR 0x08 then [CHR 0x5C, CHR ''b'']
      else if c = CHR 0x09 then [CHR 0x5C, CHR ''t'']
      else if c = CHR 0x0A then [CHR 0x5C, CHR ''n'']
      else if c = CHR 0x0C then [CHR 0x5C, CHR ''f'']
      else if c = CHR 0x0D then [CHR 0x5C, CHR ''r'']
      else if (of_char c :: nat) < 0x20 then [CHR 0x5C, CHR ''u''] @ hex4 (of_char c)
      else [c])"

definition json_quote :: "string \<Rightarrow> string" where
  "json_quote s = [CHR 0x22] @ concat (map json_escape s) @ [CHR 0x22]"

definition JSON_stringify :: "(string \<times> string) list \<Rightarrow> string" where
  "JSON_stringify ob =
     ''{'' @ join '','' (map (\<lambda>(k, v). json_quote k @ '':'' @ json_quote v) (Object_entries ob)) @ ''}''"

text \<open>
  \<^verbatim>\<open>encodeURIComponent\<close>: the unreserved characters stay, every other code unit is
  written as the bytes of its UTF-8 form, each as \<^verbatim>\<open>%XX\<close>.
\<close>

definition upper_hex2 :: "nat \<Rightarrow> string" where
  "upper_hex2 n = [''0123456789ABCDEF'' ! (n div 16), ''0123456789ABCDEF'' ! (n mod 16)]"

definition uri_unreserved :: "char \<Rightarrow> bool" where
  "uri_unreserved c \<longleftrightarrow>
     c \<in> set ''ABCDEFGHIJKLMNOPQRSTUVWXYZabcdefghijklmnopqrstuvwxyz0123456789-_.!~*()'' \<or> c = CHR 0x27"

definition uri_escape :: "char \<Rightarrow> string" where
  "uri_escape c =
     (let u = (of_char c :: nat)
      in if uri_unreserved c then [c]
         else if u < 0x80 then CHR ''%'' # upper_hex2 u
         else CHR ''%'' # upper_hex2 (0xC0 + u div 64) @ CHR ''%'' # upper_hex2 (0x80 + u mod 64))"

definition encodeURIComponent :: "string \<Rightarrow> string" where
  "encodeURIComponent s = concat (map uri_escape s)"

text \<open>
  \<^verbatim>\<open>app.get('/serialize-tools', ...)\<close>, lines 311-370.  \<open>tool_inputs\<close> is lines
  319-329, \<open>serialize_tool\<close> the body of the loop for one entry of the registry, and
  \<open>serialize_tools\<close> the loop, which stores each record under the tool's name in a
  plain object.
\<close>

definition or_default :: "string option \<Rightarrow> string \<Rightarrow> string" where
  "or_default v d = (case v of None \<Rightarrow> d | Some x \<Rightarrow> if x = [] then d else x)"

definition tool_inputs :: "tool \<Rightarrow> export_input list" where
  "tool_inputs t =
     (case inputSchema t of
        None \<Rightarrow> []
      | Some schema \<Rightarrow>
          (case properties schema of
             None \<Rightarrow> []
           | Some props \<Rightarrow>
               map (\<lambda>(paramName, paramSchema).
                      \<lparr>input_name = paramName,
                       input_type = (case schema_type paramSchema of
                                       None \<Rightarrow> JStr ''string''
                                     | Some ty \<Rightarrow> if truthy ty then ty else JStr ''string'')\<rparr>)
                   (Object_entries props)))"

definition serialize_tool :: "request \<Rightarrow> string \<Rightarrow> tool_info \<Rightarrow> export_record" where
  "serialize_tool req toolName toolInfo =
     (let t = tool toolInfo;
          ins = tool_inputs t
      in \<lparr>export_name = or_default (description t) toolName,
          export_description =
            or_default (description t)
              (''Execute '' @ toolName @ '' tool from '' @ serverName toolInfo @ '' MCP server''),
          url = protocol req @ ''://'' @ (case host req of None \<Rightarrow> ''undefined'' | Some h \<Rightarrow> h) @
                ''/tool?tool='' @ encodeURIComponent toolName,
          export_headers = [\<lparr>header_name = ''x-api-key'', header_value = ''{{API_KEY}}''\<rparr>],
          inputs = ins,
          outputs = [\<lparr>output_name = ''Result'', output_key = ''result'',
                      output_id = generateId (toolName @ ''_result'')\<rparr>],
          request_body =
            (if length ins > 0
             then JSON_stringify
                    (Object_fromEntries
                       (map (\<lambda>i. (input_name i, ''{{'' @ input_name i @ ''}}'')) ins))
             else []),
          content_type = ''json'',
          http_method = (if length ins > 0 then ''POST'' else ''GET'')\<rparr>)"

definition serialize_tools :: "request \<Rightarrow> (string \<times> tool_info) list \<Rightarrow> (string \<times> export_record) list" where
  "serialize_tools req reg =
     fold (\<lambda>(toolName, toolInfo) acc. obj_set toolName (serialize_tool req toolName toolInfo) acc)
          reg []"

definition get_serialize_tools ::
  "string \<Rightarrow> request \<Rightarrow> proxy_state \<Rightarrow> http_result \<times> proxy_state" where
  "get_serialize_tools apiKey req =
     authenticateApiKey apiKey req
       (\<lambda>s. (Response 200 (SerializedJson (serialize_tools req (availableTools s))), s))"

text \<open>
  For the statement about the identifier: the same hash on 32-bit machine words.
\<close>

fun hash_word :: "int list \<Rightarrow> 32 word \<Rightarrow> 32 word" where
  "hash_word [] h = h"
| "hash_word (c # cs) h = hash_word cs (push_bit 5 h - h + word_of_int c)"

section \<open>The specification's words as definitions\<close>

text \<open>
  The parsing rule of the selector as the specification words it: a token is split at
  its first \<^verbatim>\<open>=\<close>; a token without one, or with it in first position, is ignored;
  of two tokens with the same key the later one counts.
\<close>

definition token_pair :: "string \<Rightarrow> (string \<times> string) option" where
  "token_pair t =
     (if CHR ''='' \<in> set t \<and> takeWhile (\<lambda>c. c \<noteq> CHR ''='') t \<noteq> []
      then Some (takeWhile (\<lambda>c. c \<noteq> CHR ''='') t, tl (dropWhile (\<lambda>c. c \<noteq> CHR ''='') t))
      else None)"

definition inline_params :: "string list \<Rightarrow> string \<rightharpoonup> jsval" where
  "inline_params tokens =
     map_of (rev (map (\<lambda>(k, v). (k, JStr v)) (List.map_filter token_pair tokens)))"

text \<open>
  For the statements about discovery: whether a backend was discovered successfully
  (it connected and listed its tools), the tools of the successfully discovered backends
  with their backend, in the order of discovery, the entry that the listing shows for
  a tool, the tools of one backend by name, the union of a sequence of such maps, in
  which a later map overrides an earlier one where both bind a name, and the registry
  that discovery leaves.
\<close>

definition succeeded ::
  "(string \<Rightarrow> server_config \<Rightarrow> client promised) \<Rightarrow> string \<Rightarrow> server_config \<Rightarrow> bool" where
  "succeeded connect server serverConfig =
     (case connect server serverConfig of
        Rejected msg \<Rightarrow> False
      | Resolved cl \<Rightarrow> (case listTools cl of Rejected msg \<Rightarrow> False | Resolved r \<Rightarrow> True))"

definition discovered ::
  "(string \<Rightarrow> server_config \<Rightarrow> client promised) \<Rightarrow> (string \<times> server_config) list \<Rightarrow> (string \<times> tool) list" where
  "discovered connect servers =
     concat (map (\<lambda>(server, serverConfig).
                    map (\<lambda>t. (server, t)) (listed_tools connect server serverConfig))
                 servers)"

definition listing_of :: "string \<times> tool \<Rightarrow> tool_listing" where
  "listing_of st =
     \<lparr>listing_name = name (snd st), listing_server = fst st,
      listing_description = description (snd st),
      listing_inputSchema = inputSchema (snd st)\<rparr>"

definition backend_tools ::
  "(string \<Rightarrow> server_config \<Rightarrow> client promised) \<Rightarrow> string \<times> server_config \<Rightarrow> string \<rightharpoonup> tool_info" where
  "backend_tools connect e =
     map_of (rev (map (\<lambda>t. (name t, \<lparr>serverName = fst e, tool = t\<rparr>))
                      (listed_tools connect (fst e) (snd e))))"

definition union_of :: "('k \<rightharpoonup> 'v) list \<Rightarrow> 'k \<rightharpoonup> 'v" where
  "union_of ms = foldl (++) Map.empty ms"

abbreviation registry_after ::
  "(string \<Rightarrow> server_config \<Rightarrow> client promised) \<Rightarrow> settings \<Rightarrow> proxy_state \<Rightarrow> (string \<times> tool_info) list" where
  "registry_after connect st s0 \<equiv> availableTools (initializeMCPServers connect st s0)"

text \<open>
  For the statement about the export: the properties that a tool's schema declares, in
  the order in which it declares them (an object holds each name once); the input that
  a declared property stands for, with its type tag, or \<open>string\<close> in its place; and the
  placeholder token of an input.
\<close>

definition declared_properties :: "tool \<Rightarrow> (string \<times> param_schema) list" where
  "declared_properties t =
     (case inputSchema t of
        None \<Rightarrow> []
      | Some schema \<Rightarrow> (case properties schema of None \<Rightarrow> [] | Some props \<Rightarrow> AList.clearjunk props))"

definition declared_input :: "string \<times> param_schema \<Rightarrow> export_input" where
  "declared_input p =
     \<lparr>input_name = fst p,
      input_type = (case schema_type (snd p) of
                      None \<Rightarrow> JStr ''string''
                    | Some ty \<Rightarrow> if truthy ty then ty else JStr ''string'')\<rparr>"

definition placeholder :: "string \<Rightarrow> string" where
  "placeholder inputName = ''{{'' @ inputName @ ''}}''"

text \<open>
  For the statement about the identifier: the number that a string of hexadecimal
  digits writes, and the polynomial in 31 whose coefficients are the code units of a
  string, the first unit with the highest power.
\<close>

definition hex_digit_value :: "char \<Rightarrow> nat" where
  "hex_digit_value c = (if is_digit c then of_char c - 48 else of_char c - 87)"

definition hex_value :: "string \<Rightarrow> nat" where
  "hex_value s = foldl (\<lambda>n c. 16 * n + hex_digit_value c) 0 s"

definition polynomial_31 :: "int list \<Rightarrow> int" where
  "polynomial_31 units = (\<Sum>i<length units. units ! i * 31 ^ (length units - Suc i))"

section \<open>Concrete inputs\<close>

text \<open>
  A backend \<open>alpha\<close> with one tool \<open>echo\<close>, which answers with its arguments unless
  they hold a key \<open>fail\<close>; the state of a proxy that has discovered it; and a request
  to \<^verbatim>\<open>localhost:3000\<close>.
\<close>

definition echo_tool :: tool where
  "echo_tool =
     \<lparr>name = ''echo'', description = Some ''Echo the input'',
      inputSchema =
        Some \<lparr>properties =
                Some [(''text'', \<lparr>schema_type = Some (JStr ''string''),
                                    schema_description = Some ''What to echo''\<rparr>),
                      (''times'', \<lparr>schema_type = None, schema_description = None\<rparr>)],
              required = Some [''text'']\<rparr>\<rparr>"

definition echo_client :: client where
  "echo_client =
     \<lparr>listTools = Resolved \<lparr>tools = Some [echo_tool]\<rparr>,
      callTool = (\<lambda>toolName arguments.
                    if toolName = ''echo'' \<and> map_of arguments ''fail'' = None
                    then Resolved (Some (JObj arguments))
                    else Rejected ''backend said no'')\<rparr>"

definition example_state :: proxy_state where
  "example_state =
     \<lparr>mcpClients = [(''alpha'', echo_client)],
      availableTools = [(''echo'', \<lparr>serverName = ''alpha'', tool = echo_tool\<rparr>)],
      console = [], backend_calls = [],
      clock = (\<lambda>i. 1000 + 7 * int i), clock_reads = 0\<rparr>"

definition example_request :: "(string \<times> string) list \<Rightarrow> obj \<Rightarrow> jsval option \<Rightarrow> request" where
  "example_request hs q b =
     \<lparr>headers = hs, query = q, body = b, protocol = ''http'', host = Some ''localhost:3000''\<rparr>"

text \<open>
  More backends: \<open>beta\<close> lists a second tool named \<open>echo\<close> and a tool \<open>sum\<close>,
  \<open>sigma\<close> lists \<open>sum\<close>, \<open>gamma\<close> connects and fails to list its tools, and
  every other command fails to start.
\<close>

definition sum_tool :: tool where
  "sum_tool = \<lparr>name = ''sum'', description = None, inputSchema = None\<rparr>"

definition shadow_tool :: tool where
  "shadow_tool = \<lparr>name = ''echo'', description = Some ''Echo, again'', inputSchema = None\<rparr>"

definition example_connect :: "string \<Rightarrow> server_config \<Rightarrow> client promised" where
  "example_connect server serverConfig =
     (if command serverConfig = ''alpha'' then Resolved echo_client
      else if command serverConfig = ''beta''
      then Resolved \<lparr>listTools = Resolved \<lparr>tools = Some [shadow_tool, sum_tool]\<rparr>,
                     callTool = (\<lambda>toolName arguments. Resolved None)\<rparr>
      else if command serverConfig = ''gamma''
      then Resolved \<lparr>listTools = Rejected ''Request timed out'',
                     callTool = (\<lambda>toolName arguments. Rejected ''Not connected'')\<rparr>
      else if command serverConfig = ''sigma''
      then Resolved \<lparr>listTools = Resolved \<lparr>tools = Some [sum_tool]\<rparr>,
                     callTool = (\<lambda>toolName arguments. Resolved None)\<rparr>
      else Rejected ''spawn ENOENT'')"

definition example_server :: "string \<Rightarrow> string \<times> server_config" where
  "example_server n = (n, \<lparr>command = n, args = None\<rparr>)"

definition example_settings :: "string list \<Rightarrow> settings" where
  "example_settings ns = \<lparr>mcpServers = Some (map example_server ns)\<rparr>"

definition fresh_state :: proxy_state where
  "fresh_state =
     \<lparr>mcpClients = [], availableTools = [], console = [], backend_calls = [],
      clock = (\<lambda>i. 1000 + 7 * int i), clock_reads = 0\<rparr>"

definition example_registry :: "(string \<times> tool_info) list" where
  "example_registry =
     [(''echo'', \<lparr>serverName = ''alpha'', tool = echo_tool\<rparr>),
      (''sum'', \<lparr>serverName = ''sigma'', tool = sum_tool\<rparr>)]"

text \<open>
  Two tools for the export.  \<open>numbered_tool\<close> declares the properties \<open>b\<close>, \<open>1\<close>
  and \<open>a\<close>, in this order.  \<open>quoted_tool\<close> declares \<open>b\<close>, \<open>10\<close>, \<open>01\<close>, \<open>9\<close>
  and a property whose name is \<open>q\<close>, a double quote, a backslash, a line feed and the
  control character 1; the type tag of \<open>10\<close> is the empty string.
\<close>

definition plain_schema :: "string \<Rightarrow> param_schema" where
  "plain_schema ty = \<lparr>schema_type = Some (JStr ty), schema_description = None\<rparr>"

definition numbered_tool :: tool where
  "numbered_tool =
     \<lparr>name = ''pick'', description = None,
      inputSchema =
        Some \<lparr>properties =
                Some [(''b'', plain_schema ''boolean''), (''1'', plain_schema ''number''),
                      (''a'', plain_schema ''string'')],
              required = None\<rparr>\<rparr>"

definition quoted_name :: string where
  "quoted_name = [CHR ''q'', CHR 0x22, CHR 0x5C, CHR 0x0A, CHR 0x01]"

definition quoted_tool :: tool where
  "quoted_tool =
     \<lparr>name = ''quote'', description = None,
      inputSchema =
        Some \<lparr>properties =
                Some [(''b'', plain_schema ''boolean''), (''10'', plain_schema []),
                      (''01'', plain_schema ''number''), (''9'', plain_schema ''integer''),
                      (quoted_name, \<lparr>schema_type = None, schema_description = None\<rparr>)],
              required = None\<rparr>\<rparr>"

definition export_registry :: "(string \<times> tool_info) list" where
  "export_registry =
     [(''echo'', \<lparr>serverName = ''alpha'', tool = echo_tool\<rparr>),
      (''sum'', \<lparr>serverName = ''sigma'', tool = sum_tool\<rparr>),
      (''quote'', \<lparr>serverName = ''sigma'', tool = quoted_tool\<rparr>)]"

section \<open>Properties\<close>

subsection \<open>Objects and strings\<close>

lemma split_nonempty: "split sep s \<noteq> []"
  by (induction s) (auto split: list.splits)

lemma set_own_keys_order [simp]: "set (own_keys_order ps) = set ps"
  by (auto simp: own_keys_order_def)

lemma mset_own_keys_order [simp]: "mset (own_keys_order ps) = mset ps"
  by (simp add: own_keys_order_def)

lemma length_own_keys_order [simp]: "length (own_keys_order ps) = length ps"
  using mset_own_keys_order [of ps] by (metis size_mset)

lemma distinct_own_keys_order [simp]:
  "distinct (map fst (own_keys_order ps)) \<longleftrightarrow> distinct (map fst ps)"
proof -
  have "mset (map fst (own_keys_order ps)) = mset (map fst ps)"
    by simp
  then show ?thesis
    by (rule mset_eq_imp_distinct_iff)
qed

lemma map_of_own_keys_order:
  "distinct (map fst ps) \<Longrightarrow> map_of (own_keys_order ps) = map_of ps"
  by (simp add: map_of_inject_set)

lemma own_keys_order_no_index:
  "\<forall>p \<in> set ps. \<not> is_array_index (fst p) \<Longrightarrow> own_keys_order ps = ps"
  by (simp add: own_keys_order_def filter_empty_conv filter_id_conv)

lemma sorted_index_part:
  "sorted (map (\<lambda>p. index_value (fst p))
     (sort_key (\<lambda>p. index_value (fst p)) (filter (\<lambda>p. is_array_index (fst p)) ps)))"
  by simp

lemma own_keys_order_filter:
  "own_keys_order (filter Q (own_keys_order ps)) = filter Q (own_keys_order ps)"
proof -
  let ?f = "\<lambda>p::string \<times> 'a. index_value (fst p)"
  let ?I = "\<lambda>p::string \<times> 'a. is_array_index (fst p)"
  let ?s = "sort_key ?f (filter ?I ps)"
  let ?r = "filter (\<lambda>p. \<not> ?I p) ps"
  have a: "filter ?I (filter Q ?s) = filter Q ?s"
    by (rule filter_True) auto
  have b: "filter ?I (filter Q ?r) = []"
    by (rule filter_False) auto
  have c: "filter (\<lambda>p. \<not> ?I p) (filter Q ?s) = []"
    by (rule filter_False) auto
  have d: "filter (\<lambda>p. \<not> ?I p) (filter Q ?r) = filter Q ?r"
    by (rule filter_True) auto
  have "sorted (map ?f (filter Q ?s))"
    by (rule sorted_filter) simp
  then have e: "sort_key ?f (filter Q ?s) = filter Q ?s"
    by (rule sort_key_id_if_sorted)
  show ?thesis
    unfolding own_keys_order_def filter_append
    by (simp only: a b c d e append_Nil2 append_Nil)
qed

lemma own_keys_order_idem: "own_keys_order (own_keys_order ps) = own_keys_order ps"
  using own_keys_order_filter [of "\<lambda>p. True" ps] by simp

lemma sort_key_map_snd:
  "sort_key (\<lambda>p. f (fst p)) (map (\<lambda>p. (fst p, g p)) ps) =
     map (\<lambda>p. (fst p, g p)) (sort_key (\<lambda>p. f (fst p)) ps)"
proof (induction ps)
  case Nil
  then show ?case by simp
next
  case (Cons p ps)
  have ins: "insort_key (\<lambda>p. f (fst p)) (fst p, g p) (map (\<lambda>p. (fst p, g p)) qs) =
      map (\<lambda>p. (fst p, g p)) (insort_key (\<lambda>p. f (fst p)) p qs)" for qs
    by (induction qs) auto
  show ?case
    by (simp add: Cons.IH ins)
qed

lemma own_keys_order_map:
  "own_keys_order (map (\<lambda>p. (fst p, g p)) ps) = map (\<lambda>p. (fst p, g p)) (own_keys_order ps)"
  by (simp add: own_keys_order_def filter_map comp_def sort_key_map_snd)

lemma Object_entries_distinct [simp]: "distinct (map fst (Object_entries ob))"
  by (simp add: Object_entries_def)

lemma map_of_Object_entries [simp]: "map_of (Object_entries ob) = map_of ob"
  by (simp add: Object_entries_def map_of_own_keys_order map_of_clearjunk)

lemma Object_entries_idem: "Object_entries (Object_entries ob) = Object_entries ob"
  by (simp add: Object_entries_def own_keys_order_idem)

lemma Object_entries_filter:
  "Object_entries (filter P (Object_entries ob)) = filter P (Object_entries ob)"
proof -
  have "distinct (map fst (filter P (Object_entries ob)))"
    by (simp add: distinct_map_filter)
  then show ?thesis
    by (simp add: Object_entries_def [of "filter P (Object_entries ob)"])
       (simp add: Object_entries_def own_keys_order_filter)
qed

lemmas enumerate_simps =
  Object_entries_def own_keys_order_def is_array_index_def is_digit_def index_value_def

lemma map_of_fold_update:
  "map_of (fold (\<lambda>(k, v) acc. AList.update k v acc) ps target) = map_of target ++ map_of (rev ps)"
proof (induction ps arbitrary: target)
  case Nil
  then show ?case by simp
next
  case (Cons p ps)
  obtain k v where p: "p = (k, v)" by (cases p)
  show ?case
    by (simp add: p Cons.IH update_conv' map_add_upd_left fun_eq_iff map_add_def split: option.splits)
qed

lemma map_of_rev_distinct: "distinct (map fst ps) \<Longrightarrow> map_of (rev ps) = map_of ps"
  by (metis distinct_rev rev_map map_of_inject_set set_rev)

lemma map_of_spread_into: "map_of (spread_into target source) = map_of target ++ map_of source"
  by (simp add: spread_into_def map_of_fold_update map_of_rev_distinct)

lemma distinct_fold_update:
  "distinct (map fst target) \<Longrightarrow>
   distinct (map fst (fold (\<lambda>(k, v) acc. AList.update k v acc) ps target))"
  by (induction ps arbitrary: target) (auto simp: distinct_update)

lemma map_of_obj_set:
  "map_of (obj_set k v ob) = (if k = ''__proto__'' then map_of ob else (map_of ob)(k \<mapsto> v))"
  by (simp add: obj_set_def update_conv')

lemma split_no_sep: "sep \<notin> set s \<Longrightarrow> split sep s = [s]"
  by (induction s) auto

lemma split_append: "sep \<notin> set a \<Longrightarrow> split sep (a @ sep # rest) = a # split sep rest"
  by (induction a) auto

lemma indexOf_key:
  "c \<notin> set k \<Longrightarrow> indexOf (k @ c # v) c = int (length k)"
  by (simp add: indexOf_def takeWhile_append)

lemma token_key_value:
  assumes "CHR ''='' \<notin> set k" "k \<noteq> []"
  shows "parse_parts ((k @ CHR ''='' # v) # rest) params = parse_parts rest (obj_set k (JStr v) params)"
  using assms by (simp add: indexOf_key substring_def substring_from_def Let_def nat_add_distrib)

subsection \<open>The selector parser\<close>

lemma parse_parts_step:
  "parse_parts (t # rest) params =
     (case token_pair t of
        None \<Rightarrow> parse_parts rest params
      | Some (k, v) \<Rightarrow> parse_parts rest (obj_set k (JStr v) params))"
proof -
  let ?n = "length (takeWhile (\<lambda>c. c \<noteq> CHR ''='') t)"
  have a: "take ?n t = takeWhile (\<lambda>c. c \<noteq> CHR ''='') t"
    by (rule takeWhile_eq_take [symmetric])
  have b: "drop (Suc ?n) t = tl (dropWhile (\<lambda>c. c \<noteq> CHR ''='') t)"
    by (simp add: dropWhile_eq_drop tl_drop drop_Suc)
  show ?thesis
    by (simp add: token_pair_def indexOf_def substring_def substring_from_def Let_def
        nat_add_distrib a b)
qed

lemma inline_params_Cons:
  "inline_params (t # rest) =
     (case token_pair t of
        None \<Rightarrow> inline_params rest
      | Some (k, v) \<Rightarrow> [k \<mapsto> JStr v] ++ inline_params rest)"
  by (auto simp: inline_params_def List.map_filter_simps fun_eq_iff map_add_def
      split: option.splits)

lemma map_of_parse_parts:
  "k \<noteq> ''__proto__'' \<Longrightarrow>
   map_of (parse_parts tokens params) k = (map_of params ++ inline_params tokens) k"
proof (induction tokens arbitrary: params)
  case Nil
  then show ?case by (simp add: inline_params_def List.map_filter_simps)
next
  case (Cons t rest)
  show ?case
  proof (cases "token_pair t")
    case None
    then show ?thesis
      using Cons by (simp add: parse_parts_step inline_params_Cons del: parse_parts.simps)
  next
    case (Some kv)
    obtain k' v' where kv: "kv = (k', v')" by (cases kv)
    show ?thesis
      using Cons Some kv
      by (auto simp add: parse_parts_step inline_params_Cons map_of_obj_set map_add_def
          simp del: parse_parts.simps split: option.splits)
  qed
qed

lemma parse_nonempty:
  "q \<noteq> [] \<Longrightarrow>
   parseToolAndParams (Some (JStr q)) =
     Inr (Some (hd (split CHR '' '' q)), parse_parts (tl (split CHR '' '' q)) [])"
  using split_nonempty [of "CHR '' ''" q] by (auto split: list.splits)

lemma parse_two_pairs:
  assumes sp: "CHR '' '' \<notin> set (toolName @ k1 @ v1 @ k2 @ v2)"
      and eq: "CHR ''='' \<notin> set (k1 @ k2)"
      and ne: "k1 \<noteq> []" "k2 \<noteq> []"
  shows "parseToolAndParams
           (Some (JStr (toolName @ '' '' @ k1 @ ''='' @ v1 @ '' '' @ k2 @ ''='' @ v2))) =
         Inr (Some toolName, obj_set k2 (JStr v2) (obj_set k1 (JStr v1) []))"
proof -
  let ?t1 = "k1 @ CHR ''='' # v1" and ?t2 = "k2 @ CHR ''='' # v2"
  have a: "split CHR '' '' ?t2 = [?t2]"
    using sp by (intro split_no_sep) simp
  have b: "split CHR '' '' (?t1 @ CHR '' '' # ?t2) = ?t1 # split CHR '' '' ?t2"
    using sp by (intro split_append) simp
  have c: "split CHR '' '' (toolName @ CHR '' '' # ?t1 @ CHR '' '' # ?t2) =
      toolName # split CHR '' '' (?t1 @ CHR '' '' # ?t2)"
    using sp by (intro split_append) simp
  have s1: "split CHR '' '' (toolName @ '' '' @ k1 @ ''='' @ v1 @ '' '' @ k2 @ ''='' @ v2) =
      [toolName, ?t1, ?t2]"
    using a b c by simp
  have "parse_parts [?t1, ?t2] [] = obj_set k2 (JStr v2) (obj_set k1 (JStr v1) [])"
    using eq ne by (simp add: token_key_value del: parse_parts.simps(2))
  then show ?thesis
    using s1 by (simp del: parse_parts.simps)
qed

text \<open>
  The parsing rule, for every key other than \<^verbatim>\<open>__proto__\<close>.  For every non-empty
  selector the tool name is the first of the pieces between single spaces, and the
  inline parameters are what the specification's rule gives for the remaining pieces:
  each is split at its first \<^verbatim>\<open>=\<close>, a piece without \<^verbatim>\<open>=\<close> or with an empty key is
  dropped.  In particular a selector \<^verbatim>\<open><name> k1=v1 k2=v2\<close> gives exactly
  \<open>{k1: v1, k2: v2}\<close>.  The empty selector and the absent one give no tool name and no
  parameters.
\<close>

theorem selector_parse:
  "(q \<noteq> [] \<longrightarrow>
      (\<exists>toolName rest params.
         split CHR '' '' q = toolName # rest \<and>
         parseToolAndParams (Some (JStr q)) = Inr (Some toolName, params) \<and>
         (\<forall>k. k \<noteq> ''__proto__'' \<longrightarrow> map_of params k = inline_params rest k))) \<and>
   (CHR '' '' \<notin> set (toolName @ k1 @ v1 @ k2 @ v2) \<and> CHR ''='' \<notin> set (k1 @ k2) \<and>
    k1 \<noteq> [] \<and> k2 \<noteq> [] \<and> k1 \<noteq> ''__proto__'' \<and> k2 \<noteq> ''__proto__'' \<longrightarrow>
      (\<exists>params.
         parseToolAndParams
           (Some (JStr (toolName @ '' '' @ k1 @ ''='' @ v1 @ '' '' @ k2 @ ''='' @ v2))) =
           Inr (Some toolName, params) \<and>
         map_of params = [k1 \<mapsto> JStr v1, k2 \<mapsto> JStr v2])) \<and>
   parseToolAndParams (Some (JStr [])) = Inr (None, []) \<and>
   parseToolAndParams None = Inr (None, [])"
proof (intro conjI impI)
  show "parseToolAndParams (Some (JStr [])) = Inr (None, [])"
    by simp
  show "parseToolAndParams None = Inr (None, [])"
    by simp
next
  assume q: "q \<noteq> []"
  obtain toolName rest where sp: "split CHR '' '' q = toolName # rest"
    using split_nonempty [of "CHR '' ''" q] by (cases "split CHR '' '' q") auto
  have "parseToolAndParams (Some (JStr q)) = Inr (Some toolName, parse_parts rest [])"
    using q sp by (simp add: parse_nonempty)
  moreover have "\<forall>k. k \<noteq> ''__proto__'' \<longrightarrow> map_of (parse_parts rest []) k = inline_params rest k"
    by (simp add: map_of_parse_parts)
  ultimately show "\<exists>toolName rest params.
         split CHR '' '' q = toolName # rest \<and>
         parseToolAndParams (Some (JStr q)) = Inr (Some toolName, params) \<and>
         (\<forall>k. k \<noteq> ''__proto__'' \<longrightarrow> map_of params k = inline_params rest k)"
    using sp by blast
next
  assume h: "CHR '' '' \<notin> set (toolName @ k1 @ v1 @ k2 @ v2) \<and> CHR ''='' \<notin> set (k1 @ k2) \<and>
    k1 \<noteq> [] \<and> k2 \<noteq> [] \<and> k1 \<noteq> ''__proto__'' \<and> k2 \<noteq> ''__proto__''"
  have "parseToolAndParams
           (Some (JStr (toolName @ '' '' @ k1 @ ''='' @ v1 @ '' '' @ k2 @ ''='' @ v2))) =
         Inr (Some toolName, obj_set k2 (JStr v2) (obj_set k1 (JStr v1) []))"
    using h by (intro parse_two_pairs) simp_all
  moreover have "map_of (obj_set k2 (JStr v2) (obj_set k1 (JStr v1) [])) =
      [k1 \<mapsto> JStr v1, k2 \<mapsto> JStr v2]"
    using h by (simp add: map_of_obj_set)
  ultimately show "\<exists>params.
         parseToolAndParams
           (Some (JStr (toolName @ '' '' @ k1 @ ''='' @ v1 @ '' '' @ k2 @ ''='' @ v2))) =
           Inr (Some toolName, params) \<and>
         map_of params = [k1 \<mapsto> JStr v1, k2 \<mapsto> JStr v2]"
    by blast
qed

theorem selector_parse_witness:
  "(\<exists>params.
      parseToolAndParams (Some (JStr ''read_file file_id=abc verbose mode=fast'')) =
        Inr (Some ''read_file'', params) \<and>
      map_of params ''file_id'' = Some (JStr ''abc'') \<and>
      map_of params ''mode'' = Some (JStr ''fast'') \<and>
      map_of params ''verbose'' = None) \<and>
   (\<exists>params.
      parseToolAndParams (Some (JStr ''echo a=1 b=2'')) = Inr (Some ''echo'', params) \<and>
      map_of params = [''a'' \<mapsto> JStr ''1'', ''b'' \<mapsto> JStr ''2''])"
  using selector_parse [of "''read_file file_id=abc verbose mode=fast''" "''echo''" "''a''" "''1''" "''b''" "''2''"]
  by (simp add: inline_params_def token_pair_def List.map_filter_simps)

subsection \<open>Invocation and the handlers\<close>

lemma log_line_fields [simp]:
  "mcpClients (log_line kind msg details s) = mcpClients s"
  "availableTools (log_line kind msg details s) = availableTools s"
  "backend_calls (log_line kind msg details s) = backend_calls s"
  "clock (log_line kind msg details s) = clock s"
  "clock_reads (log_line kind msg details s) = clock_reads s"
  by (simp_all add: log_line_def)

lemma console_log_line:
  "console (log_line kind msg (Some d) s) =
     console s @ (kind, msg) # (if d = [] then [] else [(Detail, d)])"
  "console (log_line kind msg None s) = console s @ [(kind, msg)]"
  by (simp_all add: log_line_def)

lemma invokeTool_not_found:
  assumes "map_of (availableTools s) toolName = None"
  shows "invokeTool toolName arguments s =
           (Inl (Error (''Tool '' @ [CHR 0x27] @ toolName @ [CHR 0x27] @ '' not found'')),
            logError (''Tool not found: '' @ toolName) None (s\<lparr>clock_reads := Suc (clock_reads s)\<rparr>))"
  using assms by (simp add: invokeTool_def Date_now_def)

lemma invokeTool_not_connected:
  assumes "map_of (availableTools s) toolName = Some toolInfo"
      and "map_of (mcpClients s) (serverName toolInfo) = None"
  shows "invokeTool toolName arguments s =
           (Inl (Error (''MCP server '' @ [CHR 0x27] @ serverName toolInfo @ [CHR 0x27] @
                        '' not connected'')),
            logError (''MCP server not connected: '' @ serverName toolInfo) None
              (s\<lparr>clock_reads := Suc (clock_reads s)\<rparr>))"
  using assms by (simp add: invokeTool_def Date_now_def)

lemma invokeTool_rejected:
  assumes "map_of (availableTools s) toolName = Some toolInfo"
      and "map_of (mcpClients s) (serverName toolInfo) = Some cl"
      and "callTool cl toolName arguments = Rejected msg"
  shows "fst (invokeTool toolName arguments s) = Inl (Error (''Tool execution failed: '' @ msg))"
    and "console (snd (invokeTool toolName arguments s)) =
           console s @
           [(Info, ''Executing tool: '' @ toolName),
            (Detail, ''Server: '' @ serverName toolInfo @ '', Args: '' @
                     Number_toString (int (length (Object_entries arguments))) @ '' parameters''),
            (Failure, ''Tool execution failed: '' @ toolName),
            (Detail, ''Error after '' @
                     Number_toString (clock s (Suc (clock_reads s)) - clock s (clock_reads s)) @
                     ''ms: '' @ msg)]"
    and "backend_calls (snd (invokeTool toolName arguments s)) =
           backend_calls s @ [(serverName toolInfo, toolName, arguments)]"
  using assms
  by (simp_all add: invokeTool_def Date_now_def logInfo_def logError_def console_log_line Let_def)

lemma invokeTool_resolved:
  assumes "map_of (availableTools s) toolName = Some toolInfo"
      and "map_of (mcpClients s) (serverName toolInfo) = Some cl"
      and "callTool cl toolName arguments = Resolved content"
  shows "fst (invokeTool toolName arguments s) =
           Inr \<lparr>success = True, result = content, res_tool = toolName,
                res_server = serverName toolInfo,
                executionTime = clock s (Suc (clock_reads s)) - clock s (clock_reads s)\<rparr>"
    and "backend_calls (snd (invokeTool toolName arguments s)) =
           backend_calls s @ [(serverName toolInfo, toolName, arguments)]"
  using assms
  by (simp_all add: invokeTool_def Date_now_def logInfo_def logSuccess_def Let_def)

lemma invokeTool_calls_backend:
  assumes "map_of (availableTools s) toolName = Some toolInfo"
      and "map_of (mcpClients s) (serverName toolInfo) = Some cl"
  shows "backend_calls (snd (invokeTool toolName arguments s)) =
           backend_calls s @ [(serverName toolInfo, toolName, arguments)]"
  using assms invokeTool_rejected(3) invokeTool_resolved(2)
  by (cases "callTool cl toolName arguments") blast+

lemma authenticated:
  assumes "providedKey req = Some (JStr apiKey)" "apiKey \<noteq> []"
  shows "authenticateApiKey apiKey req next s = next s"
  using assms by (simp add: authenticateApiKey_def)

lemma get_tool_handler_resolved:
  assumes "parseToolAndParams (map_of (query req) ''tool'') = Inr (Some toolName, params)"
      and "toolName \<noteq> []"
  shows "get_tool_handler req s =
           respond (invokeTool toolName
                      (get_args params (AList.delete ''tool'' (Object_entries (query req)))) s)"
  using assms by (simp add: get_tool_handler_def)

lemma post_tool_handler_resolved:
  assumes "parseToolAndParams (map_of (query req) ''tool'') = Inr (Some toolName, params)"
      and "toolName \<noteq> []"
  shows "post_tool_handler req s =
           respond (invokeTool toolName (post_args (body req) params) s)"
  using assms by (simp add: post_tool_handler_def)

lemma map_of_get_args: "map_of (get_args params additionalArgs) = map_of params ++ map_of additionalArgs"
  by (simp add: get_args_def map_of_spread_into)

lemma map_of_post_args:
  "map_of (post_args reqBody params) = map_of (spread_source reqBody) ++ map_of params"
  by (simp add: post_args_def map_of_spread_into)

lemma map_of_additionalArgs:
  "map_of (AList.delete ''tool'' (Object_entries q)) = (map_of q)(''tool'' := None)"
  by (simp add: delete_conv')

lemma snd_respond [simp]: "snd (respond r) = snd r"
  by (simp add: respond_def split: sum.splits)

subsection \<open>Argument resolution and routing\<close>

text \<open>
  Claim C1.  On \<^verbatim>\<open>GET /tool\<close> the arguments are the inline parameters of the selector
  overridden by the other query parameters: the merge of inline \<open>P\<close> and additional
  \<open>Q\<close> maps a key to its value in \<open>Q\<close> if it has one there, and else to its value in
  \<open>P\<close>; and an authenticated request whose selector parses to a tool name and the
  inline parameters \<open>P\<close> invokes that tool with the merge of \<open>P\<close> and the query
  without its \<^verbatim>\<open>tool\<close> key.
\<close>

theorem channel_A_merge:
  assumes "providedKey req = Some (JStr apiKey)" and "apiKey \<noteq> []"
      and "parseToolAndParams (map_of (query req) ''tool'') = Inr (Some toolName, P)"
      and "toolName \<noteq> []"
  shows "map_of (get_args P Q) = map_of P ++ map_of Q \<and>
         (\<exists>arguments.
            get_tool apiKey req s = respond (invokeTool toolName arguments s) \<and>
            map_of arguments = map_of P ++ (map_of (query req))(''tool'' := None))"
  using assms
  by (auto simp: get_tool_def authenticated get_tool_handler_resolved map_of_get_args
      map_of_additionalArgs)

theorem channel_A_merge_witness:
  "map_of (get_args [(''a'', JStr ''1'')] [(''a'', JStr ''2''), (''b'', JStr ''3'')]) =
     [''a'' \<mapsto> JStr ''2'', ''b'' \<mapsto> JStr ''3''] \<and>
   (\<exists>arguments.
      get_tool ''secret''
        (example_request [(''x-api-key'', ''secret'')]
           [(''tool'', JStr ''echo a=1''), (''a'', JStr ''2''), (''b'', JStr ''3'')] None)
        example_state =
      respond (invokeTool ''echo'' arguments example_state) \<and>
      map_of arguments = [''a'' \<mapsto> JStr ''2'', ''b'' \<mapsto> JStr ''3''])"
proof -
  let ?req = "example_request [(''x-api-key'', ''secret'')]
           [(''tool'', JStr ''echo a=1''), (''a'', JStr ''2''), (''b'', JStr ''3'')] None"
  have p: "parseToolAndParams (map_of (query ?req) ''tool'') = Inr (Some ''echo'', [(''a'', JStr ''1'')])"
    by (simp add: example_request_def indexOf_def substring_def substring_from_def obj_set_def)
  have k: "providedKey ?req = Some (JStr ''secret'')"
    by (simp add: providedKey_def example_request_def)
  have m: "map_of [(''a'', JStr ''1'')] ++ (map_of (query ?req))(''tool'' := None) =
      [''a'' \<mapsto> JStr ''2'', ''b'' \<mapsto> JStr ''3'']"
    by (auto simp: example_request_def fun_eq_iff map_add_def)
  have m': "map_of [(''a'', JStr ''1'')] ++ map_of [(''a'', JStr ''2''), (''b'', JStr ''3'')] =
      [''a'' \<mapsto> JStr ''2'', ''b'' \<mapsto> JStr ''3'']"
    by (auto simp: fun_eq_iff map_add_def)
  show ?thesis
    using channel_A_merge [OF k _ p, where s = example_state
        and Q = "[(''a'', JStr ''2''), (''b'', JStr ''3'')]"]
    by (simp only: m m') simp
qed

text \<open>
  Claim C2.  On \<^verbatim>\<open>POST /tool\<close> the arguments are the body's properties overridden by
  the inline parameters of the selector: the merge of a body object \<open>B\<close> and inline
  \<open>P\<close> maps a key to its value in \<open>P\<close> if it has one there, and else to its value in
  \<open>B\<close>; and an authenticated request with that body whose selector parses to a tool
  name and \<open>P\<close> invokes that tool with this merge.
\<close>

theorem channel_B_merge:
  assumes "providedKey req = Some (JStr apiKey)" and "apiKey \<noteq> []"
      and "parseToolAndParams (map_of (query req) ''tool'') = Inr (Some toolName, P)"
      and "toolName \<noteq> []"
      and "body req = Some (JObj B)"
  shows "map_of (post_args (Some (JObj B)) P) = map_of B ++ map_of P \<and>
         (\<exists>arguments.
            post_tool apiKey req s = respond (invokeTool toolName arguments s) \<and>
            map_of arguments = map_of B ++ map_of P)"
  using assms
  by (auto simp: post_tool_def authenticated post_tool_handler_resolved map_of_post_args)

theorem channel_B_merge_witness:
  "map_of (post_args (Some (JObj [(''a'', JNum 1), (''c'', JNum 4)])) [(''a'', JStr ''2'')]) =
     [''a'' \<mapsto> JStr ''2'', ''c'' \<mapsto> JNum 4] \<and>
   (\<exists>arguments.
      post_tool ''secret''
        (example_request [(''x-api-key'', ''secret'')] [(''tool'', JStr ''echo a=2'')]
           (Some (JObj [(''a'', JNum 1), (''c'', JNum 4)])))
        example_state =
      respond (invokeTool ''echo'' arguments example_state) \<and>
      map_of arguments = [''a'' \<mapsto> JStr ''2'', ''c'' \<mapsto> JNum 4])"
proof -
  let ?req = "example_request [(''x-api-key'', ''secret'')] [(''tool'', JStr ''echo a=2'')]
           (Some (JObj [(''a'', JNum 1), (''c'', JNum 4)]))"
  have p: "parseToolAndParams (map_of (query ?req) ''tool'') = Inr (Some ''echo'', [(''a'', JStr ''2'')])"
    by (simp add: example_request_def indexOf_def substring_def substring_from_def obj_set_def)
  have k: "providedKey ?req = Some (JStr ''secret'')"
    by (simp add: providedKey_def example_request_def)
  have b: "body ?req = Some (JObj [(''a'', JNum 1), (''c'', JNum 4)])"
    by (simp add: example_request_def)
  have m: "map_of [(''a'', JNum 1), (''c'', JNum 4)] ++ map_of [(''a'', JStr ''2'')] =
      [''a'' \<mapsto> JStr ''2'', ''c'' \<mapsto> JNum 4]"
    by (auto simp: fun_eq_iff map_add_def)
  show ?thesis
    using channel_B_merge [OF k _ p _ b, where s = example_state]
    by (simp only: m) simp
qed

text \<open>
  Claim C4.  A tool name that the registry does not hold makes \<^verbatim>\<open>invokeTool\<close> throw
  the error \<^verbatim>\<open>Tool '<name>' not found\<close>, and no backend is called: the calls made
  are the same after as before.
\<close>

theorem unknown_tool_not_invoked:
  assumes "map_of (availableTools s) toolName = None"
  shows "fst (invokeTool toolName arguments s) =
           Inl (Error (''Tool '' @ [CHR 0x27] @ toolName @ [CHR 0x27] @ '' not found'')) \<and>
         backend_calls (snd (invokeTool toolName arguments s)) = backend_calls s"
  using assms by (simp add: invokeTool_not_found logError_def)

theorem unknown_tool_not_invoked_witness:
  "fst (invokeTool ''missing'' [(''a'', JStr ''1'')] example_state) =
     Inl (Error (''Tool '' @ [CHR 0x27] @ ''missing'' @ [CHR 0x27] @ '' not found'')) \<and>
   backend_calls (snd (invokeTool ''missing'' [(''a'', JStr ''1'')] example_state)) = []"
  using unknown_tool_not_invoked [of example_state "''missing''" "[(''a'', JStr ''1'')]"]
  by (simp add: example_state_def)

text \<open>
  Claim C6.  When the backend rejects the call, \<^verbatim>\<open>invokeTool\<close> throws an error whose
  message is \<^verbatim>\<open>Tool execution failed: \<close> followed by the backend's message, and the
  elapsed time (the difference of the two clock readings) is reported on the console, in
  the line \<^verbatim>\<open>Error after <elapsed>ms: <message>\<close>.
\<close>

theorem backend_failure_reported:
  assumes "map_of (availableTools s) toolName = Some toolInfo"
      and "map_of (mcpClients s) (serverName toolInfo) = Some cl"
      and "callTool cl toolName arguments = Rejected msg"
  shows "fst (invokeTool toolName arguments s) = Inl (Error (''Tool execution failed: '' @ msg)) \<and>
         console (snd (invokeTool toolName arguments s)) =
           console s @
           [(Info, ''Executing tool: '' @ toolName),
            (Detail, ''Server: '' @ serverName toolInfo @ '', Args: '' @
                     Number_toString (int (length (Object_entries arguments))) @ '' parameters''),
            (Failure, ''Tool execution failed: '' @ toolName),
            (Detail, ''Error after '' @
                     Number_toString (clock s (Suc (clock_reads s)) - clock s (clock_reads s)) @
                     ''ms: '' @ msg)]"
  using assms invokeTool_rejected(1,2) by blast

theorem backend_failure_reported_witness:
  "fst (invokeTool ''echo'' [(''fail'', JStr ''yes'')] example_state) =
     Inl (Error ''Tool execution failed: backend said no'') \<and>
   console (snd (invokeTool ''echo'' [(''fail'', JStr ''yes'')] example_state)) =
     [(Info, ''Executing tool: echo''),
      (Detail, ''Server: alpha, Args: 1 parameters''),
      (Failure, ''Tool execution failed: echo''),
      (Detail, ''Error after 7ms: backend said no'')]"
proof -
  have a: "map_of (availableTools example_state) ''echo'' =
      Some \<lparr>serverName = ''alpha'', tool = echo_tool\<rparr>"
    by (simp add: example_state_def)
  have b: "map_of (mcpClients example_state) (serverName \<lparr>serverName = ''alpha'', tool = echo_tool\<rparr>) =
      Some echo_client"
    by (simp add: example_state_def)
  have c: "callTool echo_client ''echo'' [(''fail'', JStr ''yes'')] = Rejected ''backend said no''"
    by (simp add: echo_client_def)
  show ?thesis
    using backend_failure_reported [OF a b c]
    by (simp add: example_state_def Number_toString_def radix_digits.simps digit_char_def
        enumerate_simps)
qed

text \<open>
  Claim C10.  On an authenticated \<^verbatim>\<open>GET /tool\<close> for a registered tool of a connected
  backend, the backend is called once, and every query parameter other than \<^verbatim>\<open>tool\<close>
  is in the arguments of that call with its value; when the request carries no
  \<^verbatim>\<open>x-api-key\<close> header, so that the key was taken from the query parameter
  \<^verbatim>\<open>api_key\<close>, the backend receives the key as the argument \<^verbatim>\<open>api_key\<close>.
\<close>

theorem query_parameters_forwarded:
  assumes "providedKey req = Some (JStr apiKey)" and "apiKey \<noteq> []"
      and "parseToolAndParams (map_of (query req) ''tool'') = Inr (Some toolName, P)"
      and "toolName \<noteq> []"
      and "map_of (availableTools s) toolName = Some toolInfo"
      and "map_of (mcpClients s) (serverName toolInfo) = Some cl"
  shows "\<exists>arguments.
           backend_calls (snd (get_tool apiKey req s)) =
             backend_calls s @ [(serverName toolInfo, toolName, arguments)] \<and>
           (\<forall>k v. k \<noteq> ''tool'' \<and> map_of (query req) k = Some v \<longrightarrow> map_of arguments k = Some v) \<and>
           (map_of (headers req) ''x-api-key'' = None \<longrightarrow>
              map_of arguments ''api_key'' = Some (JStr apiKey))"
proof -
  let ?args = "get_args P (AList.delete ''tool'' (Object_entries (query req)))"
  have run: "get_tool apiKey req s = respond (invokeTool toolName ?args s)"
    using assms(1-4) by (simp add: get_tool_def authenticated get_tool_handler_resolved)
  have calls: "backend_calls (snd (get_tool apiKey req s)) =
      backend_calls s @ [(serverName toolInfo, toolName, ?args)]"
    using invokeTool_calls_backend [OF assms(5,6), of ?args] by (simp add: run)
  have fwd: "\<forall>k v. k \<noteq> ''tool'' \<and> map_of (query req) k = Some v \<longrightarrow> map_of ?args k = Some v"
    by (simp add: map_of_get_args map_of_additionalArgs map_add_def)
  have key: "map_of (headers req) ''x-api-key'' = None \<longrightarrow> map_of ?args ''api_key'' = Some (JStr apiKey)"
  proof
    assume "map_of (headers req) ''x-api-key'' = None"
    then have "map_of (query req) ''api_key'' = Some (JStr apiKey)"
      using assms(1) by (simp add: providedKey_def)
    then show "map_of ?args ''api_key'' = Some (JStr apiKey)"
      by (simp add: map_of_get_args map_of_additionalArgs map_add_def)
  qed
  show ?thesis
    by (rule exI [of _ ?args]) (intro conjI calls fwd key)
qed

theorem query_parameters_forwarded_witness:
  "\<exists>arguments.
     backend_calls
       (snd (get_tool ''secret''
               (example_request []
                  [(''tool'', JStr ''echo''), (''text'', JStr ''hi''), (''api_key'', JStr ''secret'')]
                  None)
               example_state)) =
       [(''alpha'', ''echo'', arguments)] \<and>
     map_of arguments ''text'' = Some (JStr ''hi'') \<and>
     map_of arguments ''api_key'' = Some (JStr ''secret'')"
proof -
  let ?req = "example_request []
                  [(''tool'', JStr ''echo''), (''text'', JStr ''hi''), (''api_key'', JStr ''secret'')]
                  None"
  have p: "parseToolAndParams (map_of (query ?req) ''tool'') = Inr (Some ''echo'', [])"
    by (simp add: example_request_def)
  have k: "providedKey ?req = Some (JStr ''secret'')"
    by (simp add: providedKey_def example_request_def)
  have a: "map_of (availableTools example_state) ''echo'' =
      Some \<lparr>serverName = ''alpha'', tool = echo_tool\<rparr>"
    by (simp add: example_state_def)
  have b: "map_of (mcpClients example_state) (serverName \<lparr>serverName = ''alpha'', tool = echo_tool\<rparr>) =
      Some echo_client"
    by (simp add: example_state_def)
  have h: "map_of (headers ?req) ''x-api-key'' = None"
    by (simp add: example_request_def)
  have t: "map_of (query ?req) ''text'' = Some (JStr ''hi'')"
    by (simp add: example_request_def)
  obtain arguments where
    c: "backend_calls (snd (get_tool ''secret'' ?req example_state)) =
          backend_calls example_state @
          [(serverName \<lparr>serverName = ''alpha'', tool = echo_tool\<rparr>, ''echo'', arguments)]"
    and f: "\<forall>k v. k \<noteq> ''tool'' \<and> map_of (query ?req) k = Some v \<longrightarrow> map_of arguments k = Some v"
    and g: "map_of (headers ?req) ''x-api-key'' = None \<longrightarrow>
              map_of arguments ''api_key'' = Some (JStr ''secret'')"
    using query_parameters_forwarded [OF k _ p _ a b] by auto
  have x: "map_of arguments ''text'' = Some (JStr ''hi'')"
    using f t by simp
  have y: "map_of arguments ''api_key'' = Some (JStr ''secret'')"
    using g h by (rule mp)
  have z: "backend_calls (snd (get_tool ''secret'' ?req example_state)) =
      [(''alpha'', ''echo'', arguments)]"
    using c by (simp add: example_state_def)
  show ?thesis
    by (rule exI [of _ arguments]) (intro conjI x y z)
qed

subsection \<open>Discovery\<close>

lemma register_fold:
  "register server ts reg =
     fold (\<lambda>(k, v) acc. AList.update k v acc) (bindings server ts) reg"
  by (simp add: register_def bindings_def fold_map comp_def)

lemma availableTools_discover:
  "availableTools (discover connect (server, serverConfig) s) =
     register server (listed_tools connect server serverConfig) (availableTools s)"
  by (simp add: discover_def listed_tools_def logInfo_def logError_def logSuccess_def Let_def
      register_def split: promised.splits option.splits)

lemma registrations_Cons:
  "registrations connect ((server, serverConfig) # rest) =
     bindings server (listed_tools connect server serverConfig) @ registrations connect rest"
  by (simp add: registrations_def bindings_def)

lemma availableTools_fold_discover:
  "availableTools (fold (discover connect) entries s) =
     fold (\<lambda>(k, v) acc. AList.update k v acc) (registrations connect entries) (availableTools s)"
proof (induction entries arbitrary: s)
  case Nil
  then show ?case by (simp add: registrations_def)
next
  case (Cons e entries)
  obtain server serverConfig where e: "e = (server, serverConfig)" by (cases e)
  show ?case
    by (simp add: e Cons.IH availableTools_discover register_fold registrations_Cons)
qed

lemma availableTools_initialize:
  assumes "mcpServers st = Some servers"
  shows "availableTools (initializeMCPServers connect st s0) =
           fold (\<lambda>(k, v) acc. AList.update k v acc)
             (registrations connect (Object_entries servers)) (availableTools s0)"
  using assms
  by (simp add: initializeMCPServers_def printAvailableTools_def availableTools_fold_discover
      logInfo_def logWarning_def Let_def)

lemma distinct_discover:
  "distinct (map fst (availableTools s)) \<Longrightarrow>
   distinct (map fst (availableTools (discover connect e s)))"
  by (cases e) (simp add: availableTools_discover register_fold distinct_fold_update)

lemma distinct_register:
  "distinct (map fst reg) \<Longrightarrow> distinct (map fst (register server ts reg))"
  by (simp add: register_fold distinct_fold_update)

lemma fold_update_fresh:
  "distinct (map fst ps) \<Longrightarrow> fst ` set ps \<inter> fst ` set reg = {} \<Longrightarrow>
   fold (\<lambda>(k, v) acc. AList.update k v acc) ps reg = reg @ ps"
proof (induction ps arbitrary: reg)
  case Nil
  then show ?case by simp
next
  case (Cons p ps)
  obtain k v where p: "p = (k, v)" by (cases p)
  have fresh: "k \<notin> fst ` set reg" using Cons.prems(2) by (auto simp: p)
  have upd: "AList.update k v reg = reg @ [(k, v)]"
    using fresh by (induction reg) auto
  have "fst ` set ps \<inter> fst ` set (reg @ [(k, v)]) = {}"
    using Cons.prems by (auto simp: p)
  then show ?case
    using Cons.IH [of "reg @ [(k, v)]"] Cons.prems(1) by (simp add: p upd)
qed

lemma keys_fold_update:
  "fst ` set (fold (\<lambda>(k, v) acc. AList.update k v acc) ps reg) = fst ` set reg \<union> fst ` set ps"
proof (induction ps arbitrary: reg)
  case Nil
  then show ?case by simp
next
  case (Cons p ps)
  obtain k v where p: "p = (k, v)" by (cases p)
  have "fst ` set (AList.update k v reg) = {k} \<union> fst ` set reg"
    by (rule dom_update)
  then show ?case
    using Cons.IH [of "AList.update k v reg"] by (auto simp: p)
qed

lemma set_fold_update_subset:
  "set (fold (\<lambda>(k, v) acc. AList.update k v acc) ps reg) \<subseteq> set reg \<union> set ps"
proof (induction ps arbitrary: reg)
  case Nil
  then show ?case by simp
next
  case (Cons p ps)
  obtain k v where p: "p = (k, v)" by (cases p)
  have "set (AList.update k v reg) \<subseteq> set reg \<union> {(k, v)}"
    by (induction reg) auto
  then show ?case
    using Cons.IH [of "AList.update k v reg"] by (auto simp: p)
qed

lemma registrations_append:
  "registrations connect (xs @ ys) = registrations connect xs @ registrations connect ys"
  by (simp add: registrations_def)

lemma keys_registrations:
  "fst ` set (registrations connect entries) =
     (\<Union>e \<in> set entries. name ` set (listed_tools connect (fst e) (snd e)))"
  by (auto simp: registrations_def image_iff split_def) force+

lemma keys_bindings: "fst ` set (bindings server ts) = name ` set ts"
  by (auto simp: bindings_def image_iff)

lemma map_of_append_right:
  "k \<notin> fst ` set xs \<Longrightarrow> map_of (xs @ ys) k = map_of ys k"
  by (induction xs) auto

lemma one_entry:
  "distinct (map fst xs) \<Longrightarrow> map_of xs k = Some v \<Longrightarrow> length (filter (\<lambda>e. fst e = k) xs) = 1"
proof (induction xs)
  case Nil
  then show ?case by simp
next
  case (Cons x xs)
  show ?case
  proof (cases "fst x = k")
    case True
    then have "k \<notin> fst ` set xs" using Cons.prems(1) by auto
    then have "filter (\<lambda>e. fst e = k) xs = []"
      by (auto simp: filter_empty_conv)
    then show ?thesis using True by simp
  next
    case False
    then have "map_of xs k = Some v" using Cons.prems(2) by (cases x) auto
    then show ?thesis using Cons False by simp
  qed
qed

lemma last_registration:
  assumes "mcpServers st = Some servers"
      and "Object_entries servers = before @ (server, serverConfig) # after"
      and "listed_tools connect server serverConfig = ts1 @ t # ts2"
      and "name t \<notin> name ` set ts2"
      and "\<forall>e \<in> set after. name t \<notin> name ` set (listed_tools connect (fst e) (snd e))"
  shows "map_of (availableTools (initializeMCPServers connect st s0)) (name t) =
           Some \<lparr>serverName = server, tool = t\<rparr>"
proof -
  let ?b = "\<lparr>serverName = server, tool = t\<rparr>"
  let ?A = "registrations connect before @ bindings server ts1"
  let ?B = "bindings server ts2 @ registrations connect after"
  have regs: "registrations connect (Object_entries servers) = ?A @ (name t, ?b) # ?B"
    by (simp add: assms(2,3) registrations_append registrations_Cons bindings_def)
  have n1: "name t \<notin> fst ` set (bindings server ts2)"
    using assms(4) by (simp add: keys_bindings)
  have n2: "name t \<notin> fst ` set (registrations connect after)"
    using assms(5) by (simp add: keys_registrations)
  have notin: "name t \<notin> fst ` set (rev ?B)"
    using n1 n2 by (simp add: image_Un)
  have "rev (registrations connect (Object_entries servers)) = rev ?B @ (name t, ?b) # rev ?A"
    by (simp only: regs rev_append rev.simps append_assoc append.simps)
  then have "map_of (rev (registrations connect (Object_entries servers))) (name t) =
      map_of ((name t, ?b) # rev ?A) (name t)"
    by (simp only: map_of_append_right [OF notin])
  then have "map_of (rev (registrations connect (Object_entries servers))) (name t) = Some ?b"
    by simp
  then show ?thesis
    by (simp add: availableTools_initialize [OF assms(1)] map_of_fold_update map_add_def)
qed

lemma registrations_discovered:
  "registrations connect servers =
     map (\<lambda>st. (name (snd st), \<lparr>serverName = fst st, tool = snd st\<rparr>)) (discovered connect servers)"
  by (induction servers) (auto simp: registrations_def discovered_def comp_def)

lemma list_tools_registrations:
  "list_tools (registrations connect servers) = map listing_of (discovered connect servers)"
  by (simp add: registrations_discovered list_tools_def listing_of_def comp_def)

lemma registrations_succeeded:
  "registrations connect (filter (\<lambda>e. succeeded connect (fst e) (snd e)) entries) =
     registrations connect entries"
proof (induction entries)
  case Nil
  then show ?case by simp
next
  case (Cons e entries)
  obtain server serverConfig where e: "e = (server, serverConfig)" by (cases e)
  have "\<not> succeeded connect server serverConfig \<Longrightarrow> listed_tools connect server serverConfig = []"
    by (auto simp: succeeded_def listed_tools_def split: promised.splits)
  then show ?case
    using Cons by (auto simp: e registrations_Cons bindings_def)
qed

text \<open>
  Claim C3.  Discovery registers the tools in the order in which the backends are
  processed and, for one backend, in the order of its list.  The registration of a name
  that no later registration repeats is the one the registry holds afterwards: the name
  is bound to that backend and that descriptor, and the registry has exactly one entry
  for it, whatever the backends processed before have registered under the name.  After
  any number of turns of the loop and any number of registrations, no name has two
  entries.
\<close>

theorem registry_last_wins:
  assumes "mcpServers st = Some servers"
      and "distinct (map fst (availableTools s0))"
      and "Object_entries servers = before @ (server, serverConfig) # after"
      and "listed_tools connect server serverConfig = ts1 @ t # ts2"
      and "name t \<notin> name ` set ts2"
      and "\<forall>e \<in> set after. name t \<notin> name ` set (listed_tools connect (fst e) (snd e))"
  shows "map_of (registry_after connect st s0) (name t) = Some \<lparr>serverName = server, tool = t\<rparr> \<and>
         length (filter (\<lambda>e. fst e = name t) (registry_after connect st s0)) = 1 \<and>
         (\<forall>n m sv ts.
            distinct (map fst (register sv (take m ts)
              (availableTools (fold (discover connect) (take n (Object_entries servers)) s0)))))"
proof (intro conjI allI)
  show bound: "map_of (registry_after connect st s0) (name t) = Some \<lparr>serverName = server, tool = t\<rparr>"
    using assms(1,3-6) by (rule last_registration)
  have "distinct (map fst (registry_after connect st s0))"
    using assms(2) by (simp add: availableTools_initialize [OF assms(1)] distinct_fold_update)
  then show "length (filter (\<lambda>e. fst e = name t) (registry_after connect st s0)) = 1"
    using bound by (rule one_entry)
next
  fix n m sv ts
  have "distinct (map fst (availableTools (fold (discover connect) (take n (Object_entries servers)) s0)))"
    using assms(2) by (simp add: availableTools_fold_discover distinct_fold_update)
  then show "distinct (map fst (register sv (take m ts)
      (availableTools (fold (discover connect) (take n (Object_entries servers)) s0))))"
    by (rule distinct_register)
qed

theorem registry_last_wins_witness:
  "map_of (registry_after example_connect (example_settings [''alpha'', ''delta'', ''beta'']) fresh_state)
     ''echo'' = Some \<lparr>serverName = ''beta'', tool = shadow_tool\<rparr> \<and>
   length (filter (\<lambda>e. fst e = ''echo'')
     (registry_after example_connect (example_settings [''alpha'', ''delta'', ''beta'']) fresh_state)) = 1"
proof -
  let ?st = "example_settings [''alpha'', ''delta'', ''beta'']"
  have a: "mcpServers ?st = Some (map example_server [''alpha'', ''delta'', ''beta''])"
    by (simp add: example_settings_def)
  have b: "distinct (map fst (availableTools fresh_state))"
    by (simp add: fresh_state_def)
  have c: "Object_entries (map example_server [''alpha'', ''delta'', ''beta'']) =
      [example_server ''alpha'', example_server ''delta''] @
      (''beta'', \<lparr>command = ''beta'', args = None\<rparr>) # []"
    by (simp add: enumerate_simps example_server_def)
  have d: "listed_tools example_connect ''beta'' \<lparr>command = ''beta'', args = None\<rparr> =
      [] @ shadow_tool # [sum_tool]"
    by (simp add: listed_tools_def example_connect_def)
  have e: "name shadow_tool \<notin> name ` set [sum_tool]"
    by (simp add: shadow_tool_def sum_tool_def)
  have f: "\<forall>e \<in> set []. name shadow_tool \<notin> name ` set (listed_tools example_connect (fst e) (snd e))"
    by simp
  have n: "name shadow_tool = ''echo''"
    by (simp add: shadow_tool_def)
  show ?thesis
    using registry_last_wins [OF a b c d e f] by (simp only: n)
qed

lemma union_of_registrations:
  "foldl (++) m (map (backend_tools connect) entries) =
     m ++ map_of (rev (registrations connect entries))"
proof (induction entries arbitrary: m)
  case Nil
  then show ?case by (simp add: registrations_def)
next
  case (Cons e entries)
  obtain server serverConfig where e: "e = (server, serverConfig)" by (cases e)
  have regs: "registrations connect (e # entries) =
      map (\<lambda>t. (name t, \<lparr>serverName = server, tool = t\<rparr>)) (listed_tools connect server serverConfig) @
      registrations connect entries"
    by (simp add: registrations_def e)
  have step: "backend_tools connect e =
      map_of (rev (map (\<lambda>t. (name t, \<lparr>serverName = server, tool = t\<rparr>))
                       (listed_tools connect server serverConfig)))"
    by (simp add: backend_tools_def e)
  have "foldl (++) m (map (backend_tools connect) (e # entries)) =
      foldl (++) (m ++ backend_tools connect e) (map (backend_tools connect) entries)"
    by simp
  also have "\<dots> = (m ++ backend_tools connect e) ++ map_of (rev (registrations connect entries))"
    by (rule Cons.IH)
  also have "\<dots> = m ++ map_of (rev (registrations connect (e # entries)))"
    by (simp only: regs step rev_append map_of_append map_add_assoc)
  finally show ?case .
qed

lemma map_of_registry_union:
  assumes "mcpServers st = Some servers" and "availableTools s0 = []"
  shows "map_of (registry_after connect st s0) =
           union_of (map (backend_tools connect)
                      (filter (\<lambda>e. succeeded connect (fst e) (snd e)) (Object_entries servers)))"
proof -
  let ?ok = "filter (\<lambda>e. succeeded connect (fst e) (snd e)) (Object_entries servers)"
  have "map_of (registry_after connect st s0) =
      map_of (rev (registrations connect (Object_entries servers)))"
    using assms by (simp add: availableTools_initialize map_of_fold_update)
  also have "\<dots> = map_of (rev (registrations connect ?ok))"
    by (simp only: registrations_succeeded)
  also have "\<dots> = union_of (map (backend_tools connect) ?ok)"
    using union_of_registrations [of Map.empty connect ?ok] by (simp add: union_of_def)
  finally show ?thesis .
qed

lemma discovered_succeeded:
  "discovered connect (filter (\<lambda>e. succeeded connect (fst e) (snd e)) entries) =
     discovered connect entries"
proof (induction entries)
  case Nil
  then show ?case by simp
next
  case (Cons e entries)
  obtain server serverConfig where e: "e = (server, serverConfig)" by (cases e)
  have "\<not> succeeded connect server serverConfig \<Longrightarrow> listed_tools connect server serverConfig = []"
    by (simp add: succeeded_def listed_tools_def split: promised.splits)
  then show ?case
    using Cons.IH by (simp add: discovered_def e)
qed

lemma registry_names:
  assumes "mcpServers st = Some servers" and "availableTools s0 = []"
      and "(n, info) \<in> set (registry_after connect st s0)"
  shows "n = name (tool info)"
proof -
  have "set (registry_after connect st s0) \<subseteq> set (registrations connect (Object_entries servers))"
    using assms(1,2) set_fold_update_subset [of "registrations connect (Object_entries servers)" "[]"]
    by (simp add: availableTools_initialize)
  then have "(n, info) \<in> set (registrations connect (Object_entries servers))"
    using assms(3) by blast
  then show ?thesis
    by (auto simp: registrations_discovered)
qed

lemma distinct_registry:
  assumes "mcpServers st = Some servers" and "availableTools s0 = []"
  shows "distinct (map fst (registry_after connect st s0))"
  using assms by (simp add: availableTools_initialize distinct_fold_update)

lemma listing_ran:
  assumes "mcpServers st = Some servers" and "availableTools s0 = []"
  shows "set (list_tools (registry_after connect st s0)) =
           (\<lambda>info. listing_of (serverName info, tool info)) ` ran (map_of (registry_after connect st s0))"
proof -
  let ?R = "registry_after connect st s0"
  have "ran (map_of ?R) = snd ` set ?R"
    using distinct_registry [OF assms] by (rule ran_distinct)
  moreover have "set (list_tools ?R) = (\<lambda>info. listing_of (serverName info, tool info)) ` snd ` set ?R"
  proof -
    have "\<lparr>listing_name = n, listing_server = serverName info,
           listing_description = description (tool info),
           listing_inputSchema = inputSchema (tool info)\<rparr> =
          listing_of (serverName info, tool info)"
      if "(n, info) \<in> set ?R" for n info
      using registry_names [OF assms that] by (simp add: listing_of_def)
    then have "map (\<lambda>(n, info). \<lparr>listing_name = n, listing_server = serverName info,
           listing_description = description (tool info),
           listing_inputSchema = inputSchema (tool info)\<rparr>) ?R =
        map (\<lambda>p. listing_of (serverName (snd p), tool (snd p))) ?R"
      by (intro map_cong) auto
    then show ?thesis
      by (simp add: list_tools_def image_image)
  qed
  ultimately show ?thesis
    by simp
qed

lemma console_discover:
  "set (console s) \<subseteq> set (console (discover connect e s))"
  "\<not> succeeded connect (fst e) (snd e) \<Longrightarrow>
   (Failure, ''Failed to connect to MCP server '' @ fst e) \<in> set (console (discover connect e s))"
  by (auto simp: discover_def succeeded_def logInfo_def logError_def logSuccess_def Let_def
      console_log_line log_line_def split: promised.splits option.splits)

lemma console_fold_discover:
  "set (console s) \<subseteq> set (console (fold (discover connect) entries s))"
proof (induction entries arbitrary: s)
  case Nil
  then show ?case by simp
next
  case (Cons e entries)
  show ?case
    using console_discover(1) [of s connect e] Cons.IH [of "discover connect e s"] by auto
qed

lemma failure_logged:
  assumes "e \<in> set entries" and "\<not> succeeded connect (fst e) (snd e)"
  shows "(Failure, ''Failed to connect to MCP server '' @ fst e) \<in>
           set (console (fold (discover connect) entries s))"
  using assms(1)
proof (induction entries arbitrary: s)
  case Nil
  then show ?case by simp
next
  case (Cons x entries)
  show ?case
  proof (cases "x = e")
    case True
    then show ?thesis
      using console_discover(2) [OF assms(2), of s] console_fold_discover [of "discover connect e s" connect entries]
      by auto
  next
    case False
    then show ?thesis
      using Cons by auto
  qed
qed

lemma failure_logged_initialize:
  assumes "mcpServers st = Some servers" and "e \<in> set (Object_entries servers)"
      and "\<not> succeeded connect (fst e) (snd e)"
  shows "(Failure, ''Failed to connect to MCP server '' @ fst e) \<in>
           set (console (initializeMCPServers connect st s0))"
proof -
  have "set (console s) \<subseteq> set (console (printAvailableTools s))" for s
    by (auto simp: printAvailableTools_def logInfo_def logWarning_def log_line_def Let_def)
  then show ?thesis
    using failure_logged [OF assms(2,3)] assms(1)
    by (auto simp: initializeMCPServers_def Let_def)
qed

text \<open>
  Claim C9.  Starting from an empty registry, whatever backends fail to connect or to
  list their tools, discovery runs to its end and the failing backends have no effect on
  the registry: it is the one that discovery of the successful backends alone builds,
  and as a map from names it is the union of the tools of the successfully discovered
  backends, a later backend overriding an earlier one where both list a name (the
  registry is keyed by name).  The listing shows one entry per name, exactly the entries
  of that union: its names are exactly the names of the tools of the successful
  backends, every entry is one of their tools, and where no name occurs twice the
  listing is exactly their tools, in the order of discovery.  For every backend that
  failed, the failure is on the console.
\<close>

theorem discovery_isolates_failures:
  assumes "mcpServers st = Some servers" and "availableTools s0 = []"
  shows "registry_after connect st s0 =
           registry_after connect
             (st\<lparr>mcpServers := Some (filter (\<lambda>e. succeeded connect (fst e) (snd e)) (Object_entries servers))\<rparr>)
             s0 \<and>
         map_of (registry_after connect st s0) =
           union_of (map (backend_tools connect)
                      (filter (\<lambda>e. succeeded connect (fst e) (snd e)) (Object_entries servers))) \<and>
         distinct (map listing_name (list_tools (registry_after connect st s0))) \<and>
         set (list_tools (registry_after connect st s0)) =
           (\<lambda>info. listing_of (serverName info, tool info)) `
             ran (union_of (map (backend_tools connect)
                      (filter (\<lambda>e. succeeded connect (fst e) (snd e)) (Object_entries servers)))) \<and>
         listing_name ` set (list_tools (registry_after connect st s0)) =
           name ` snd ` set (discovered connect
                      (filter (\<lambda>e. succeeded connect (fst e) (snd e)) (Object_entries servers))) \<and>
         set (list_tools (registry_after connect st s0)) \<subseteq>
           listing_of ` set (discovered connect
                      (filter (\<lambda>e. succeeded connect (fst e) (snd e)) (Object_entries servers))) \<and>
         (distinct (map (\<lambda>d. name (snd d)) (discovered connect
                      (filter (\<lambda>e. succeeded connect (fst e) (snd e)) (Object_entries servers)))) \<longrightarrow>
            list_tools (registry_after connect st s0) =
              map listing_of (discovered connect
                      (filter (\<lambda>e. succeeded connect (fst e) (snd e)) (Object_entries servers)))) \<and>
         (\<forall>e \<in> set (Object_entries servers).
            \<not> succeeded connect (fst e) (snd e) \<longrightarrow>
              (Failure, ''Failed to connect to MCP server '' @ fst e) \<in>
                set (console (initializeMCPServers connect st s0)))"
proof -
  let ?entries = "Object_entries servers"
  let ?ok = "filter (\<lambda>e. succeeded connect (fst e) (snd e)) ?entries"
  let ?regs = "registrations connect ?entries"
  let ?R = "registry_after connect st s0"
  have reg: "?R = fold (\<lambda>(k, v) acc. AList.update k v acc) ?regs []"
    using assms by (simp add: availableTools_initialize)
  have a: "?R = registry_after connect (st\<lparr>mcpServers := Some ?ok\<rparr>) s0"
    using assms(2)
    by (simp add: availableTools_initialize [OF assms(1)]
        availableTools_initialize [of _ ?ok]
        Object_entries_filter registrations_succeeded)
  have b: "map_of ?R = union_of (map (backend_tools connect) ?ok)"
    using assms by (rule map_of_registry_union)
  have "map listing_name (list_tools reg') = map fst reg'" for reg' :: "(string \<times> tool_info) list"
    by (simp add: list_tools_def comp_def split_def)
  then have c: "distinct (map listing_name (list_tools ?R))"
    by (simp add: reg distinct_fold_update)
  have d: "set (list_tools ?R) =
      (\<lambda>info. listing_of (serverName info, tool info)) ` ran (union_of (map (backend_tools connect) ?ok))"
    using listing_ran [OF assms, of connect] by (simp only: b)
  have names: "listing_name ` set (list_tools reg') = fst ` set reg'" for reg' :: "(string \<times> tool_info) list"
    by (force simp: list_tools_def image_iff split_def)
  have e: "listing_name ` set (list_tools ?R) = name ` snd ` set (discovered connect ?ok)"
    by (simp add: names reg keys_fold_update registrations_discovered image_image discovered_succeeded)
  have "set (list_tools ?R) \<subseteq> set (list_tools ?regs)"
    using set_fold_update_subset [of ?regs "[]"] by (auto simp: reg list_tools_def)
  then have f: "set (list_tools ?R) \<subseteq> listing_of ` set (discovered connect ?ok)"
    by (simp add: list_tools_registrations discovered_succeeded)
  have g: "distinct (map (\<lambda>d. name (snd d)) (discovered connect ?ok)) \<longrightarrow>
      list_tools ?R = map listing_of (discovered connect ?ok)"
  proof
    assume "distinct (map (\<lambda>d. name (snd d)) (discovered connect ?ok))"
    then have "distinct (map fst ?regs)"
      by (simp add: registrations_discovered comp_def discovered_succeeded)
    then have "fold (\<lambda>(k, v) acc. AList.update k v acc) ?regs [] = ?regs"
      using fold_update_fresh [of ?regs "[]"] by simp
    then show "list_tools ?R = map listing_of (discovered connect ?ok)"
      by (simp add: reg list_tools_registrations discovered_succeeded)
  qed
  have h: "\<forall>e \<in> set ?entries.
      \<not> succeeded connect (fst e) (snd e) \<longrightarrow>
        (Failure, ''Failed to connect to MCP server '' @ fst e) \<in>
          set (console (initializeMCPServers connect st s0))"
    using failure_logged_initialize [OF assms(1)] by blast
  show ?thesis
    by (intro conjI a b c d e f g h)
qed

theorem discovery_isolates_failures_witness:
  "registry_after example_connect (example_settings [''delta'', ''alpha'', ''gamma'', ''sigma'']) fresh_state =
     registry_after example_connect (example_settings [''alpha'', ''sigma'']) fresh_state \<and>
   list_tools (registry_after example_connect
                 (example_settings [''delta'', ''alpha'', ''gamma'', ''sigma'']) fresh_state) =
     [listing_of (''alpha'', echo_tool), listing_of (''sigma'', sum_tool)] \<and>
   registry_after example_connect (example_settings [''delta'', ''alpha'', ''gamma'', ''beta'']) fresh_state =
     registry_after example_connect (example_settings [''alpha'', ''beta'']) fresh_state \<and>
   map_of (registry_after example_connect
             (example_settings [''delta'', ''alpha'', ''gamma'', ''beta'']) fresh_state) ''echo'' =
     Some \<lparr>serverName = ''beta'', tool = shadow_tool\<rparr> \<and>
   map_of (registry_after example_connect
             (example_settings [''delta'', ''alpha'', ''gamma'', ''beta'']) fresh_state) ''sum'' =
     Some \<lparr>serverName = ''beta'', tool = sum_tool\<rparr> \<and>
   listing_name ` set (list_tools (registry_after example_connect
             (example_settings [''delta'', ''alpha'', ''gamma'', ''beta'']) fresh_state)) =
     {''echo'', ''sum''} \<and>
   list_tools (registry_after example_connect
             (example_settings [''delta'', ''alpha'', ''gamma'', ''beta'']) fresh_state) =
     [listing_of (''beta'', shadow_tool), listing_of (''beta'', sum_tool)] \<and>
   (Failure, ''Failed to connect to MCP server delta'') \<in>
     set (console (initializeMCPServers example_connect
             (example_settings [''delta'', ''alpha'', ''gamma'', ''beta'']) fresh_state)) \<and>
   (Failure, ''Failed to connect to MCP server gamma'') \<in>
     set (console (initializeMCPServers example_connect
             (example_settings [''delta'', ''alpha'', ''gamma'', ''beta'']) fresh_state))"
proof -
  let ?st = "example_settings [''delta'', ''alpha'', ''gamma'', ''sigma'']"
  let ?servers = "map example_server [''delta'', ''alpha'', ''gamma'', ''sigma'']"
  let ?st' = "example_settings [''delta'', ''alpha'', ''gamma'', ''beta'']"
  let ?servers' = "map example_server [''delta'', ''alpha'', ''gamma'', ''beta'']"
  have a: "mcpServers ?st = Some ?servers" and a': "mcpServers ?st' = Some ?servers'"
    by (simp_all add: example_settings_def)
  have b: "availableTools fresh_state = []"
    by (simp add: fresh_state_def)
  have e: "Object_entries ?servers = ?servers" and e': "Object_entries ?servers' = ?servers'"
    by (simp_all add: enumerate_simps example_server_def)
  have f: "filter (\<lambda>e. succeeded example_connect (fst e) (snd e)) ?servers =
      map example_server [''alpha'', ''sigma'']"
    by (simp add: succeeded_def example_connect_def example_server_def echo_client_def)
  have f': "filter (\<lambda>e. succeeded example_connect (fst e) (snd e)) ?servers' =
      map example_server [''alpha'', ''beta'']"
    by (simp add: succeeded_def example_connect_def example_server_def echo_client_def)
  have d: "discovered example_connect (map example_server [''alpha'', ''sigma'']) =
      [(''alpha'', echo_tool), (''sigma'', sum_tool)]"
    by (simp add: discovered_def listed_tools_def example_connect_def example_server_def
        echo_client_def)
  have d': "discovered example_connect (map example_server [''alpha'', ''beta'']) =
      [(''alpha'', echo_tool), (''beta'', shadow_tool), (''beta'', sum_tool)]"
    by (simp add: discovered_def listed_tools_def example_connect_def example_server_def
        echo_client_def)
  have n: "distinct (map (\<lambda>d. name (snd d)) [(''alpha'', echo_tool), (''sigma'', sum_tool)])"
    by (simp add: echo_tool_def sum_tool_def)
  have s: "?st\<lparr>mcpServers := Some (map example_server [''alpha'', ''sigma''])\<rparr> =
      example_settings [''alpha'', ''sigma'']"
    by (simp add: example_settings_def)
  have s': "?st'\<lparr>mcpServers := Some (map example_server [''alpha'', ''beta''])\<rparr> =
      example_settings [''alpha'', ''beta'']"
    by (simp add: example_settings_def)
  have u: "union_of (map (backend_tools example_connect) (map example_server [''alpha'', ''beta''])) =
      [''echo'' \<mapsto> \<lparr>serverName = ''beta'', tool = shadow_tool\<rparr>,
       ''sum'' \<mapsto> \<lparr>serverName = ''beta'', tool = sum_tool\<rparr>]"
    by (simp add: union_of_def backend_tools_def listed_tools_def example_connect_def
        example_server_def echo_client_def echo_tool_def shadow_tool_def sum_tool_def fun_eq_iff
        map_add_def)
  note th = discovery_isolates_failures [OF a b, of example_connect]
  note th' = discovery_isolates_failures [OF a' b, of example_connect]
  have c1: "registry_after example_connect ?st fresh_state =
      registry_after example_connect (example_settings [''alpha'', ''sigma'']) fresh_state"
    using th [THEN conjunct1] by (simp only: e f s)
  have c2: "list_tools (registry_after example_connect ?st fresh_state) =
      [listing_of (''alpha'', echo_tool), listing_of (''sigma'', sum_tool)]"
    using th [THEN conjunct2, THEN conjunct2, THEN conjunct2, THEN conjunct2, THEN conjunct2,
        THEN conjunct2, THEN conjunct1] n
    by (simp only: e f d) simp
  have c3: "registry_after example_connect ?st' fresh_state =
      registry_after example_connect (example_settings [''alpha'', ''beta'']) fresh_state"
    using th' [THEN conjunct1] by (simp only: e' f' s')
  have m: "map_of (registry_after example_connect ?st' fresh_state) =
      [''echo'' \<mapsto> \<lparr>serverName = ''beta'', tool = shadow_tool\<rparr>,
       ''sum'' \<mapsto> \<lparr>serverName = ''beta'', tool = sum_tool\<rparr>]"
    using th' [THEN conjunct2, THEN conjunct1] by (simp only: e' f' u)
  have c4: "map_of (registry_after example_connect ?st' fresh_state) ''echo'' =
      Some \<lparr>serverName = ''beta'', tool = shadow_tool\<rparr>"
    by (simp add: m)
  have c5: "map_of (registry_after example_connect ?st' fresh_state) ''sum'' =
      Some \<lparr>serverName = ''beta'', tool = sum_tool\<rparr>"
    by (simp add: m)
  have c6: "listing_name ` set (list_tools (registry_after example_connect ?st' fresh_state)) =
      {''echo'', ''sum''}"
    using th' [THEN conjunct2, THEN conjunct2, THEN conjunct2, THEN conjunct2, THEN conjunct1]
    by (simp only: e' f' d') (simp add: echo_tool_def shadow_tool_def sum_tool_def)
  have c7: "list_tools (registry_after example_connect ?st' fresh_state) =
      [listing_of (''beta'', shadow_tool), listing_of (''beta'', sum_tool)]"
    by (simp add: availableTools_initialize [OF a'] enumerate_simps example_server_def
        registrations_def listed_tools_def example_connect_def echo_client_def
        fresh_state_def list_tools_def listing_of_def echo_tool_def shadow_tool_def sum_tool_def)
  note logged = th' [THEN conjunct2, THEN conjunct2, THEN conjunct2, THEN conjunct2, THEN conjunct2,
      THEN conjunct2, THEN conjunct2, unfolded e']
  have "example_server ''delta'' \<in> set ?servers'" and "example_server ''gamma'' \<in> set ?servers'"
    by simp_all
  moreover have "\<not> succeeded example_connect (fst (example_server ''delta'')) (snd (example_server ''delta''))"
    and "\<not> succeeded example_connect (fst (example_server ''gamma'')) (snd (example_server ''gamma''))"
    by (simp_all add: succeeded_def example_connect_def example_server_def)
  ultimately have c8: "(Failure, ''Failed to connect to MCP server delta'') \<in>
        set (console (initializeMCPServers example_connect ?st' fresh_state))"
    and c9: "(Failure, ''Failed to connect to MCP server gamma'') \<in>
        set (console (initializeMCPServers example_connect ?st' fresh_state))"
    using logged [THEN bspec, of "example_server ''delta''"]
      logged [THEN bspec, of "example_server ''gamma''"]
    by (simp_all add: example_server_def)
  show ?thesis
    by (intro conjI c1 c2 c3 c4 c5 c6 c7 c8 c9)
qed

subsection \<open>A selector key that is not stored\<close>

text \<open>
  Claim C5.  The selector \<^verbatim>\<open>echo __proto__=x\<close> has two pieces; the second has its first
  \<^verbatim>\<open>=\<close> at position 9, so the rule gives the inline parameter \<^verbatim>\<open>__proto__\<close> with
  the value \<open>x\<close>.  The parser returns no parameter: line 210 assigns the key to a
  plain object, which stores nothing under this name, while a piece \<^verbatim>\<open>proto=x\<close> is
  stored.  So \<^verbatim>\<open>GET /tool\<close> calls the backend without the parameter, whereas the same
  key in the body of \<^verbatim>\<open>POST /tool\<close>, which is copied by a spread, reaches the backend.
\<close>

theorem selector_proto_dropped:
  "split CHR '' '' ''echo __proto__=x'' = [''echo'', ''__proto__=x''] \<and>
   indexOf ''__proto__=x'' CHR ''='' = 9 \<and>
   inline_params [''__proto__=x''] ''__proto__'' = Some (JStr ''x'') \<and>
   parseToolAndParams (Some (JStr ''echo __proto__=x'')) = Inr (Some ''echo'', []) \<and>
   parseToolAndParams (Some (JStr ''echo proto=x'')) = Inr (Some ''echo'', [(''proto'', JStr ''x'')]) \<and>
   backend_calls
     (snd (get_tool ''secret''
             (example_request [(''x-api-key'', ''secret'')] [(''tool'', JStr ''echo __proto__=x'')] None)
             example_state)) =
     [(''alpha'', ''echo'', [])] \<and>
   backend_calls
     (snd (post_tool ''secret''
             (example_request [(''x-api-key'', ''secret'')] [(''tool'', JStr ''echo'')]
                (Some (JObj [(''__proto__'', JStr ''x'')])))
             example_state)) =
     [(''alpha'', ''echo'', [(''__proto__'', JStr ''x'')])]"
proof -
  let ?get = "example_request [(''x-api-key'', ''secret'')] [(''tool'', JStr ''echo __proto__=x'')] None"
  let ?post = "example_request [(''x-api-key'', ''secret'')] [(''tool'', JStr ''echo'')]
                (Some (JObj [(''__proto__'', JStr ''x'')]))"
  let ?info = "\<lparr>serverName = ''alpha'', tool = echo_tool\<rparr>"
  have a: "split CHR '' '' ''echo __proto__=x'' = [''echo'', ''__proto__=x'']"
    by simp
  have b: "indexOf ''__proto__=x'' CHR ''='' = 9"
    by (simp add: indexOf_def)
  have c: "inline_params [''__proto__=x''] ''__proto__'' = Some (JStr ''x'')"
    by (simp add: inline_params_def token_pair_def List.map_filter_simps)
  have d: "parseToolAndParams (Some (JStr ''echo __proto__=x'')) = Inr (Some ''echo'', [])"
    by (simp add: indexOf_def substring_def substring_from_def obj_set_def)
  have e: "parseToolAndParams (Some (JStr ''echo proto=x'')) = Inr (Some ''echo'', [(''proto'', JStr ''x'')])"
    by (simp add: indexOf_def substring_def substring_from_def obj_set_def)
  have reg: "map_of (availableTools example_state) ''echo'' = Some ?info"
    and cl: "map_of (mcpClients example_state) (serverName ?info) = Some echo_client"
    and calls: "backend_calls example_state = []"
    by (simp_all add: example_state_def)
  have kg: "providedKey ?get = Some (JStr ''secret'')" and kp: "providedKey ?post = Some (JStr ''secret'')"
    by (simp_all add: providedKey_def example_request_def)
  have pg: "parseToolAndParams (map_of (query ?get) ''tool'') = Inr (Some ''echo'', [])"
    using d by (simp add: example_request_def)
  have pp: "parseToolAndParams (map_of (query ?post) ''tool'') = Inr (Some ''echo'', [])"
    by (simp add: example_request_def)
  have ag: "get_args [] (AList.delete ''tool'' (Object_entries (query ?get))) = []"
    by (simp add: get_args_def spread_into_def example_request_def enumerate_simps)
  have ap: "post_args (body ?post) [] = [(''__proto__'', JStr ''x'')]"
    by (simp add: post_args_def spread_into_def example_request_def enumerate_simps)
  have "get_tool ''secret'' ?get example_state = respond (invokeTool ''echo'' [] example_state)"
    using get_tool_handler_resolved [OF pg, of example_state]
    by (simp add: get_tool_def authenticated [OF kg] ag)
  then have f: "backend_calls (snd (get_tool ''secret'' ?get example_state)) = [(''alpha'', ''echo'', [])]"
    using invokeTool_calls_backend [OF reg cl, of "[]"] by (simp add: calls)
  have "post_tool ''secret'' ?post example_state =
      respond (invokeTool ''echo'' [(''__proto__'', JStr ''x'')] example_state)"
    using post_tool_handler_resolved [OF pp, of example_state]
    by (simp add: post_tool_def authenticated [OF kp] ap)
  then have g: "backend_calls (snd (post_tool ''secret'' ?post example_state)) =
      [(''alpha'', ''echo'', [(''__proto__'', JStr ''x'')])]"
    using invokeTool_calls_backend [OF reg cl, of "[(''__proto__'', JStr ''x'')]"] by (simp add: calls)
  show ?thesis
    by (intro conjI a b c d e f g)
qed

subsection \<open>The export\<close>

lemma ToInt32_sint: "ToInt32 x = sint (word_of_int x :: 32 word)"
  by (simp add: ToInt32_def sint_sbintrunc' signed_take_bit_eq_take_bit_shift take_bit_eq_mod)

lemma word_of_int_ToInt32: "(word_of_int (ToInt32 x) :: 32 word) = word_of_int x"
  by (simp add: ToInt32_sint)

lemma bitAnd_same: "bitAnd x x = ToInt32 x"
  by (simp add: bitAnd_def)

lemma hash_step_word:
  "(word_of_int (shiftLeft (sint w) 5 - sint w + c) :: 32 word) = push_bit 5 w - w + word_of_int c"
proof -
  have "(word_of_int (shiftLeft (sint w) 5) :: 32 word) = word_of_int (sint w * 2 ^ 5)"
    by (simp add: shiftLeft_def word_of_int_ToInt32 ToInt32_sint)
  also have "\<dots> = push_bit 5 w"
    by (simp add: push_bit_eq_mult)
  finally show ?thesis
    by simp
qed

lemma hash_loop_word: "hash_loop cs (sint w) = sint (hash_word cs w)"
proof (induction cs arbitrary: w)
  case Nil
  then show ?case by simp
next
  case (Cons c cs)
  let ?h = "shiftLeft (sint w) 5 - sint w + c"
  have "hash_loop (c # cs) (sint w) = hash_loop cs (sint (word_of_int ?h :: 32 word))"
    by (simp add: Let_def bitAnd_same ToInt32_sint)
  also have "\<dots> = sint (hash_word cs (word_of_int ?h))"
    by (rule Cons.IH)
  finally show ?case
    by (simp only: hash_step_word hash_word.simps)
qed

lemma hash_loop_zero: "hash_loop cs 0 = sint (hash_word cs 0)"
  using hash_loop_word [of cs 0] by simp

lemma digit_char_hex: "d < 16 \<Longrightarrow> digit_char d \<in> set ''0123456789abcdef''"
  unfolding digit_char_def by (rule nth_mem) simp

lemma radix_digits_small: "n < b \<Longrightarrow> radix_digits b n = [digit_char n]"
  by (simp add: radix_digits.simps)

lemma radix_digits_step:
  "2 \<le> b \<Longrightarrow> b \<le> n \<Longrightarrow>
   radix_digits b n = radix_digits b (n div b) @ [digit_char (n mod b)]"
  by (subst radix_digits.simps) simp

lemma radix_digits_hex: "set (radix_digits 16 n) \<subseteq> set ''0123456789abcdef''"
proof (induction "16::nat" n rule: radix_digits.induct)
  case (1 n)
  show ?case
  proof (cases "n < 16")
    case True
    then show ?thesis
      using digit_char_hex [of n] by (simp add: radix_digits_small)
  next
    case False
    have "digit_char (n mod 16) \<in> set ''0123456789abcdef''"
      by (rule digit_char_hex) simp
    moreover have "set (radix_digits 16 (n div 16)) \<subseteq> set ''0123456789abcdef''"
      using False 1 by simp
    ultimately show ?thesis
      using False by (simp add: radix_digits_step)
  qed
qed

lemma radix_digits_length:
  "2 \<le> b \<Longrightarrow> n < b ^ k \<Longrightarrow> 0 < k \<Longrightarrow> length (radix_digits b n) \<le> k"
proof (induction b n arbitrary: k rule: radix_digits.induct)
  case (1 b n)
  show ?case
  proof (cases "n < b")
    case True
    then show ?thesis using 1(4) by (simp add: radix_digits_small)
  next
    case False
    then obtain k' where k: "k = Suc k'" using 1(4) by (cases k) auto
    have "k' \<noteq> 0" using False 1(3) k by (cases k') auto
    moreover have "n div b < b ^ k'"
      using 1(3) 1(2) k by (simp add: less_mult_imp_div_less mult.commute)
    ultimately have "length (radix_digits b (n div b)) \<le> k'"
      using 1(1) [of k'] False 1(2) by simp
    then show ?thesis
      using False 1(2) k by (simp add: radix_digits_step)
  qed
qed

lemma render_id_length:
  assumes "nat \<bar>h\<bar> \<le> 2 ^ 31"
  shows "length (render_id h) = 12"
proof -
  have "nat \<bar>h\<bar> < 16 ^ 8" using assms by simp
  then have "length (radix_digits 16 (nat \<bar>h\<bar>)) \<le> 8"
    by (intro radix_digits_length) simp_all
  then show ?thesis
    by (simp add: render_id_def padStart_def)
qed

lemma render_id_hex: "set (render_id h) \<subseteq> set ''0123456789abcdef''"
  using radix_digits_hex [of "nat \<bar>h\<bar>"] by (auto simp: render_id_def padStart_def)

lemma hash_loop_Cons:
  "hash_loop (c # cs) h = hash_loop cs (ToInt32 (ToInt32 (ToInt32 h * 32) - h + c))"
  by (simp add: Let_def bitAnd_same shiftLeft_def)

lemma hash_read_file: "hash_loop (charCodes ''read_file_result'') 0 = - 111414505"
  by (simp add: charCodes_def hash_loop_Cons ToInt32_def del: hash_loop.simps(2))

lemma generateId_read_file: "generateId (''read_file'' @ ''_result'') = ''000006a40ce9''"
proof -
  have "replicate 5 CHR ''0'' = ''00000''"
    by (simp add: numeral_eq_Suc)
  then show ?thesis
    using hash_read_file
    by (simp add: generateId_def render_id_def padStart_def radix_digits.simps digit_char_def)
qed

lemma hash_word_horner:
  "hash_word cs (word_of_int a) = word_of_int (foldl (\<lambda>h c. 31 * h + c) a cs)"
proof (induction cs arbitrary: a)
  case Nil
  then show ?case by simp
next
  case (Cons c cs)
  have "push_bit 5 (word_of_int a :: 32 word) - word_of_int a + word_of_int c =
      word_of_int (31 * a + c)"
    by (simp add: push_bit_eq_mult)
  then show ?case
    using Cons.IH [of "31 * a + c"] by simp
qed

lemma horner_polynomial:
  "foldl (\<lambda>h c. 31 * h + c) a cs = a * 31 ^ length cs + polynomial_31 cs"
proof (induction cs arbitrary: a)
  case Nil
  then show ?case by (simp add: polynomial_31_def)
next
  case (Cons c cs)
  have "polynomial_31 (c # cs) = c * 31 ^ length cs + polynomial_31 cs"
    by (simp add: polynomial_31_def sum.lessThan_Suc_shift del: sum.lessThan_Suc)
  then show ?case
    using Cons.IH [of "31 * a + c"] by (simp add: algebra_simps)
qed

lemma hash_word_polynomial: "hash_word cs 0 = word_of_int (polynomial_31 cs)"
  using hash_word_horner [of cs 0] by (simp add: horner_polynomial)

lemma hash_loop_polynomial:
  "(hash_loop cs 0 - polynomial_31 cs) mod 2 ^ 32 = 0"
proof -
  have "(word_of_int (hash_loop cs 0 - polynomial_31 cs) :: 32 word) = 0"
    by (simp add: hash_loop_zero hash_word_polynomial)
  then have "2 ^ LENGTH(32) dvd hash_loop cs 0 - polynomial_31 cs"
    by (simp only: word_of_int_eq_0_iff)
  then show ?thesis
    by (simp add: mod_eq_0_iff_dvd)
qed

lemma hash_loop_range: "- (2 ^ 31) \<le> hash_loop cs 0 \<and> hash_loop cs 0 < 2 ^ 31"
  using sint_ge [of "hash_word cs 0"] sint_lt [of "hash_word cs 0"]
  by (simp add: hash_loop_zero)

lemma hex_value_snoc: "hex_value (s @ [c]) = 16 * hex_value s + hex_digit_value c"
  by (simp add: hex_value_def)

lemma hex_digit_value_digit_char: "d < 16 \<Longrightarrow> hex_digit_value (digit_char d) = d"
proof -
  assume "d < 16"
  then have "d \<in> set [0..<16]"
    by simp
  also have "[0..<16] = [0, 1, 2, 3, 4, 5, 6, 7, 8, 9, 10, 11, 12, 13, 14, 15::nat]"
    by (simp add: upt_rec)
  finally show ?thesis
    by (auto simp add: hex_digit_value_def digit_char_def is_digit_def)
qed

lemma hex_value_radix_digits: "hex_value (radix_digits 16 n) = n"
proof (induction "16::nat" n rule: radix_digits.induct)
  case (1 n)
  show ?case
  proof (cases "n < 16")
    case True
    then show ?thesis
      by (simp add: radix_digits_small hex_value_def hex_digit_value_digit_char)
  next
    case False
    then have "hex_value (radix_digits 16 (n div 16)) = n div 16"
      using 1 by simp
    then show ?thesis
      using False by (simp add: radix_digits_step hex_value_snoc hex_digit_value_digit_char)
  qed
qed

lemma hex_digit_value_zero: "hex_digit_value CHR ''0'' = 0"
  by (simp add: hex_digit_value_def is_digit_def)

lemma hex_value_zeros: "hex_value (replicate k CHR ''0'' @ s) = hex_value s"
proof -
  have "foldl (\<lambda>n c. 16 * n + hex_digit_value c) 0 (replicate k CHR ''0'') = 0"
    by (induction k) (simp_all add: hex_digit_value_zero)
  then show ?thesis
    by (simp add: hex_value_def)
qed

lemma hex_value_render_id: "hex_value (render_id h) = nat \<bar>h\<bar>"
  by (simp add: render_id_def padStart_def hex_value_zeros hex_value_radix_digits)

lemma generateId_value:
  "\<exists>h. - (2 ^ 31) \<le> h \<and> h < 2 ^ 31 \<and>
     (h - polynomial_31 (map (\<lambda>c. int (of_char c)) str)) mod 2 ^ 32 = 0 \<and>
     hex_value (generateId str) = nat \<bar>h\<bar>"
proof (intro exI [of _ "hash_loop (charCodes str) 0"] conjI)
  show "- (2 ^ 31) \<le> hash_loop (charCodes str) 0"
    using hash_loop_range [of "charCodes str"] by simp
  show "hash_loop (charCodes str) 0 < 2 ^ 31"
    using hash_loop_range [of "charCodes str"] by simp
  show "(hash_loop (charCodes str) 0 - polynomial_31 (map (\<lambda>c. int (of_char c)) str)) mod 2 ^ 32 = 0"
    using hash_loop_polynomial [of "charCodes str"] by (simp only: charCodes_def)
  show "hex_value (generateId str) = nat \<bar>hash_loop (charCodes str) 0\<bar>"
    by (simp only: generateId_def hex_value_render_id)
qed

lemma generateId_shape:
  "length (generateId str) = 12 \<and> set (generateId str) \<subseteq> set ''0123456789abcdef''"
proof
  have "nat \<bar>sint (hash_word (charCodes str) 0)\<bar> \<le> 2 ^ 31"
    using sint_ge [of "hash_word (charCodes str) 0"] sint_lt [of "hash_word (charCodes str) 0"]
    by simp
  then show "length (generateId str) = 12"
    by (simp only: generateId_def hash_loop_zero render_id_length)
  show "set (generateId str) \<subseteq> set ''0123456789abcdef''"
    unfolding generateId_def by (rule render_id_hex)
qed

text \<open>
  Claim C8.  The identifier that the export generates for a string is a function of
  that string alone.  It is twelve hexadecimal digits, and the number they write is
  the absolute value of the one integer \<open>h\<close> of the signed 32-bit range that is
  congruent modulo \<open>2\<^sup>3\<^sup>2\<close> to the polynomial in 31 of the string's code units:
  the hash \<open>h := (h << 5) - h + c\<close> over the units \<open>c\<close>, which is also what the same
  loop on 32-bit words computes.  In the export the identifier of a tool's output is
  that of the tool's name followed by \<^verbatim>\<open>_result\<close>, whatever the request, the
  descriptor and the backend of the tool are.
\<close>

theorem export_id_deterministic:
  "(\<exists>h. - (2 ^ 31) \<le> h \<and> h < 2 ^ 31 \<and>
      (h - polynomial_31 (map (\<lambda>c. int (of_char c)) str)) mod 2 ^ 32 = 0 \<and>
      hex_value (generateId str) = nat \<bar>h\<bar>) \<and>
   length (generateId str) = 12 \<and>
   set (generateId str) \<subseteq> set ''0123456789abcdef'' \<and>
   hash_loop units 0 = sint (hash_word units 0) \<and>
   outputs (serialize_tool req toolName toolInfo) =
     [\<lparr>output_name = ''Result'', output_key = ''result'',
       output_id = generateId (toolName @ ''_result'')\<rparr>]"
proof (intro conjI)
  show "\<exists>h. - (2 ^ 31) \<le> h \<and> h < 2 ^ 31 \<and>
      (h - polynomial_31 (map (\<lambda>c. int (of_char c)) str)) mod 2 ^ 32 = 0 \<and>
      hex_value (generateId str) = nat \<bar>h\<bar>"
    by (rule generateId_value)
  show "length (generateId str) = 12"
    using generateId_shape [of str] by simp
  show "set (generateId str) \<subseteq> set ''0123456789abcdef''"
    using generateId_shape [of str] by simp
  show "hash_loop units 0 = sint (hash_word units 0)"
    by (rule hash_loop_zero)
  show "outputs (serialize_tool req toolName toolInfo) =
     [\<lparr>output_name = ''Result'', output_key = ''result'',
       output_id = generateId (toolName @ ''_result'')\<rparr>]"
    by (simp add: serialize_tool_def Let_def)
qed

theorem export_id_deterministic_witness:
  "hash_loop (charCodes ''read_file_result'') 0 = - 111414505 \<and>
   sint (hash_word (charCodes ''read_file_result'') 0) = - 111414505 \<and>
   generateId ''read_file_result'' = ''000006a40ce9'' \<and>
   hex_value ''000006a40ce9'' = 111414505 \<and>
   length ''000006a40ce9'' = 12 \<and>
   outputs (serialize_tool (example_request [] [] None) ''read_file''
       \<lparr>serverName = ''files'', tool = echo_tool\<rparr>) =
     [\<lparr>output_name = ''Result'', output_key = ''result'', output_id = ''000006a40ce9''\<rparr>]"
proof -
  have id: "generateId ''read_file_result'' = ''000006a40ce9''"
    using generateId_read_file by simp
  have "outputs (serialize_tool (example_request [] [] None) ''read_file''
       \<lparr>serverName = ''files'', tool = echo_tool\<rparr>) =
     [\<lparr>output_name = ''Result'', output_key = ''result'',
       output_id = generateId (''read_file'' @ ''_result'')\<rparr>]"
    using export_id_deterministic [of "''read_file_result''" "[]" "example_request [] [] None" "''read_file''"
        "\<lparr>serverName = ''files'', tool = echo_tool\<rparr>"]
    by (elim conjE)
  moreover have "hex_value ''000006a40ce9'' = 111414505"
    by (simp add: hex_value_def hex_digit_value_def is_digit_def)
  moreover have "sint (hash_word (charCodes ''read_file_result'') 0) = - 111414505"
    using export_id_deterministic [of "[]" "charCodes ''read_file_result''" "example_request [] [] None" "[]"
        "\<lparr>serverName = ''files'', tool = echo_tool\<rparr>"]
    by (simp only: hash_read_file)
  ultimately show ?thesis
    using id hash_read_file by simp
qed

lemma own_keys_order_Nil [simp]: "own_keys_order [] = []"
  by (simp add: own_keys_order_def)

lemma tool_inputs_declared:
  "tool_inputs t = map declared_input (own_keys_order (declared_properties t))"
  by (simp add: tool_inputs_def declared_properties_def declared_input_def Object_entries_def
      split_def split: option.splits)

lemma distinct_declared: "distinct (map fst (declared_properties t))"
  by (simp add: declared_properties_def distinct_clearjunk split: option.splits)

lemma filter_declared_input:
  "filter (\<lambda>i. P (input_name i)) (map declared_input ps) =
     map declared_input (filter (\<lambda>p. P (fst p)) ps)"
  by (simp add: filter_map comp_def declared_input_def)

lemma own_keys_order_index_part:
  "filter (\<lambda>p. is_array_index (fst p)) (own_keys_order ps) =
     sort_key (\<lambda>p. index_value (fst p)) (filter (\<lambda>p. is_array_index (fst p)) ps)"
proof -
  let ?s = "sort_key (\<lambda>p. index_value (fst p)) (filter (\<lambda>p. is_array_index (fst p)) ps)"
  have "filter (\<lambda>p. is_array_index (fst p)) ?s = ?s"
    by (rule filter_True) auto
  moreover have "filter (\<lambda>p. is_array_index (fst p)) (filter (\<lambda>p. \<not> is_array_index (fst p)) ps) = []"
    by (rule filter_False) auto
  ultimately show ?thesis
    unfolding own_keys_order_def filter_append by (simp only: append_Nil2)
qed

lemma own_keys_order_name_part:
  "filter (\<lambda>p. \<not> is_array_index (fst p)) (own_keys_order ps) =
     filter (\<lambda>p. \<not> is_array_index (fst p)) ps"
proof -
  let ?s = "sort_key (\<lambda>p. index_value (fst p)) (filter (\<lambda>p. is_array_index (fst p)) ps)"
  let ?r = "filter (\<lambda>p. \<not> is_array_index (fst p)) ps"
  have "filter (\<lambda>p. \<not> is_array_index (fst p)) ?s = []"
    by (rule filter_False) auto
  moreover have "filter (\<lambda>p. \<not> is_array_index (fst p)) ?r = ?r"
    by (rule filter_True) auto
  ultimately show ?thesis
    unfolding own_keys_order_def filter_append by (simp only: append_Nil)
qed

lemma own_keys_order_parts:
  "own_keys_order ps =
     filter (\<lambda>p. is_array_index (fst p)) (own_keys_order ps) @
     filter (\<lambda>p. \<not> is_array_index (fst p)) (own_keys_order ps)"
  by (simp only: own_keys_order_index_part own_keys_order_name_part) (simp add: own_keys_order_def)

lemma Object_fromEntries_distinct:
  "distinct (map fst entries) \<Longrightarrow> Object_fromEntries entries = entries"
  using fold_update_fresh [of entries "[]"] by (simp add: Object_fromEntries_def)

lemma template_entries:
  "Object_entries
     (Object_fromEntries (map (\<lambda>i. (input_name i, ''{{'' @ input_name i @ ''}}'')) (tool_inputs t))) =
     map (\<lambda>i. (input_name i, placeholder (input_name i))) (tool_inputs t)"
proof -
  let ?ps = "own_keys_order (declared_properties t)"
  let ?g = "\<lambda>p :: string \<times> param_schema. placeholder (fst p)"
  have entries: "map (\<lambda>i. (input_name i, ''{{'' @ input_name i @ ''}}'')) (tool_inputs t) =
      map (\<lambda>p. (fst p, ?g p)) ?ps"
    by (simp add: tool_inputs_declared declared_input_def comp_def placeholder_def)
  have dist: "distinct (map fst (map (\<lambda>p. (fst p, ?g p)) ?ps))"
    using distinct_declared [of t] by (simp add: comp_def)
  have "Object_entries (Object_fromEntries (map (\<lambda>p. (fst p, ?g p)) ?ps)) =
      own_keys_order (map (\<lambda>p. (fst p, ?g p)) ?ps)"
    using dist by (simp only: Object_fromEntries_distinct Object_entries_def distinct_clearjunk_id)
  also have "\<dots> = map (\<lambda>p. (fst p, ?g p)) ?ps"
    by (simp only: own_keys_order_map own_keys_order_idem)
  finally show ?thesis
    by (simp only: entries) (simp add: tool_inputs_declared declared_input_def comp_def)
qed

lemma serialize_tool_fields:
  "inputs (serialize_tool req toolName toolInfo) = tool_inputs (tool toolInfo)"
  "http_method (serialize_tool req toolName toolInfo) =
     (if tool_inputs (tool toolInfo) = [] then ''GET'' else ''POST'')"
  "request_body (serialize_tool req toolName toolInfo) =
     (if tool_inputs (tool toolInfo) = [] then []
      else ''{'' @ join '',''
             (map (\<lambda>i. json_quote (input_name i) @ '':'' @ json_quote (placeholder (input_name i)))
                  (tool_inputs (tool toolInfo))) @ ''}'')"
proof -
  show "inputs (serialize_tool req toolName toolInfo) = tool_inputs (tool toolInfo)"
    by (simp add: serialize_tool_def Let_def)
  show "http_method (serialize_tool req toolName toolInfo) =
     (if tool_inputs (tool toolInfo) = [] then ''GET'' else ''POST'')"
    by (simp add: serialize_tool_def Let_def)
  have "request_body (serialize_tool req toolName toolInfo) =
     (if tool_inputs (tool toolInfo) = [] then []
      else JSON_stringify (Object_fromEntries
         (map (\<lambda>i. (input_name i, ''{{'' @ input_name i @ ''}}'')) (tool_inputs (tool toolInfo)))))"
    by (simp add: serialize_tool_def Let_def)
  then show "request_body (serialize_tool req toolName toolInfo) =
     (if tool_inputs (tool toolInfo) = [] then []
      else ''{'' @ join '',''
             (map (\<lambda>i. json_quote (input_name i) @ '':'' @ json_quote (placeholder (input_name i)))
                  (tool_inputs (tool toolInfo))) @ ''}'')"
    by (simp only: JSON_stringify_def template_entries) (simp add: comp_def)
qed

lemma obj_set_subset: "set (obj_set k v ob) \<subseteq> insert (k, v) (set ob)"
proof -
  have "set (AList.update k v ob) \<subseteq> insert (k, v) (set ob)"
    by (induction ob) auto
  then show ?thesis
    by (auto simp: obj_set_def)
qed

lemma fold_obj_set_member:
  "(n, r) \<in> set (fold (\<lambda>(k, i) acc. obj_set k (f k i) acc) reg acc0) \<Longrightarrow>
   (n, r) \<in> set acc0 \<or> (\<exists>i. (n, i) \<in> set reg \<and> r = f n i)"
proof (induction reg arbitrary: acc0)
  case Nil
  then show ?case by simp
next
  case (Cons e reg)
  obtain k i where e: "e = (k, i)" by (cases e)
  from Cons.prems have "(n, r) \<in> set (obj_set k (f k i) acc0) \<or> (\<exists>i. (n, i) \<in> set reg \<and> r = f n i)"
    by (intro Cons.IH) (simp add: e)
  then show ?case
    using obj_set_subset [of k "f k i" acc0] by (auto simp: e)
qed

lemma fold_obj_set_lookup:
  "n \<noteq> ''__proto__'' \<Longrightarrow>
   map_of (fold (\<lambda>(k, i) acc. obj_set k (f k i) acc) reg acc0) n =
     (case map_of (rev reg) n of None \<Rightarrow> map_of acc0 n | Some i \<Rightarrow> Some (f n i))"
proof (induction reg arbitrary: acc0)
  case Nil
  then show ?case by simp
next
  case (Cons e reg)
  obtain k i where e: "e = (k, i)" by (cases e)
  show ?case
    using Cons.prems
    by (simp add: e Cons.IH map_of_obj_set map_add_def split: option.splits)
qed

lemma serialize_tools_lookup:
  assumes "(toolName, toolInfo) \<in> set reg" and "distinct (map fst reg)"
      and "toolName \<noteq> ''__proto__''"
  shows "map_of (serialize_tools req reg) toolName = Some (serialize_tool req toolName toolInfo)"
proof -
  have "map_of (rev reg) toolName = Some toolInfo"
    using assms(1,2) by (simp add: map_of_rev_distinct)
  then show ?thesis
    using assms(3) by (simp add: serialize_tools_def fold_obj_set_lookup)
qed

lemma serialize_tools_member:
  "(n, r) \<in> set (serialize_tools req reg) \<Longrightarrow>
   \<exists>info. (n, info) \<in> set reg \<and> r = serialize_tool req n info"
  using fold_obj_set_member [of n r "serialize_tool req" reg "[]"]
  by (simp add: serialize_tools_def)

lemma index_value_snoc: "index_value (xs @ [c]) = 10 * index_value xs + (of_char c - 48)"
  by (simp add: index_value_def)

lemma digit_char_of_digit: "is_digit c \<Longrightarrow> digit_char (of_char c - 48) = c"
  by (auto simp: is_digit_def digit_char_def)

lemma digit_below_ten: "is_digit c \<Longrightarrow> (of_char c :: nat) - 48 < 10"
  by (auto simp: is_digit_def)

lemma foldl_digits_ge: "(a::nat) \<le> foldl (\<lambda>n c. 10 * n + (of_char c - 48)) a xs"
proof (induction xs arbitrary: a)
  case Nil
  then show ?case by simp
next
  case (Cons c xs)
  have "a \<le> 10 * a + (of_char c - 48)"
    by simp
  also have "\<dots> \<le> foldl (\<lambda>n c. 10 * n + (of_char c - 48)) (10 * a + (of_char c - 48)) xs"
    by (rule Cons.IH)
  finally show ?case
    by simp
qed

lemma index_value_positive:
  assumes "xs \<noteq> []" and "is_digit (hd xs)" and "hd xs \<noteq> CHR ''0''"
  shows "0 < index_value xs"
proof -
  obtain c cs where xs: "xs = c # cs"
    using assms(1) by (cases xs) auto
  have "0 < (of_char c :: nat) - 48"
    using assms(2,3) by (auto simp: xs is_digit_def)
  also have "\<dots> \<le> index_value xs"
    using foldl_digits_ge [of "of_char c - 48" cs] by (simp add: xs index_value_def)
  finally show ?thesis .
qed

lemma radix_digits_index_value:
  assumes "k \<noteq> []" and "list_all is_digit k" and "k = ''0'' \<or> hd k \<noteq> CHR ''0''"
  shows "radix_digits 10 (index_value k) = k"
  using assms
proof (induction k rule: rev_induct)
  case Nil
  then show ?case by simp
next
  case (snoc c xs)
  have c: "is_digit c" and xs: "list_all is_digit xs"
    using snoc.prems(2) by simp_all
  show ?case
  proof (cases "xs = []")
    case True
    then show ?thesis
      using digit_below_ten [OF c] digit_char_of_digit [OF c]
      by (simp add: index_value_def radix_digits_small)
  next
    case False
    then have hd: "hd xs \<noteq> CHR ''0''"
      using snoc.prems(3) by (cases xs) auto
    have "is_digit (hd xs)"
      using False xs by (cases xs) auto
    then have pos: "0 < index_value xs"
      using False hd by (intro index_value_positive)
    have "radix_digits 10 (index_value xs) = xs"
      using False xs hd by (intro snoc.IH) simp_all
    moreover have "10 \<le> index_value (xs @ [c])"
      using pos by (simp add: index_value_snoc)
    moreover have "index_value (xs @ [c]) div 10 = index_value xs"
      and "index_value (xs @ [c]) mod 10 = of_char c - 48"
      using digit_below_ten [OF c] by (simp_all add: index_value_snoc)
    ultimately show ?thesis
      using digit_char_of_digit [OF c] by (simp add: radix_digits_step)
  qed
qed

lemma index_value_inj:
  assumes "is_array_index k" and "is_array_index k'" and "index_value k = index_value k'"
  shows "k = k'"
proof -
  have k: "k \<noteq> []" "list_all is_digit k" "k = ''0'' \<or> hd k \<noteq> CHR ''0''"
    using assms(1) unfolding is_array_index_def by simp_all
  have k': "k' \<noteq> []" "list_all is_digit k'" "k' = ''0'' \<or> hd k' \<noteq> CHR ''0''"
    using assms(2) unfolding is_array_index_def by simp_all
  have "k = radix_digits 10 (index_value k)"
    by (rule radix_digits_index_value [OF k, symmetric])
  also have "\<dots> = radix_digits 10 (index_value k')"
    by (simp only: assms(3))
  also have "\<dots> = k'"
    by (rule radix_digits_index_value [OF k'])
  finally show ?thesis .
qed

lemma strictly_ascending_index_part:
  assumes "distinct (map fst ps)"
  shows "sorted_wrt (<) (map (\<lambda>p. index_value (fst p))
           (sort_key (\<lambda>p. index_value (fst p)) (filter (\<lambda>p. is_array_index (fst p)) ps)))"
proof -
  let ?xs = "filter (\<lambda>p. is_array_index (fst p)) ps"
  let ?f = "\<lambda>p::string \<times> 'a. index_value (fst p)"
  have d1: "distinct (map fst ?xs)"
    using assms by (rule distinct_map_filter)
  have i1: "inj_on index_value (set (map fst ?xs))"
    by (auto intro!: inj_onI index_value_inj)
  have "distinct (map index_value (map fst ?xs))"
    using d1 i1 by (simp only: distinct_map [of index_value "map fst ?xs"] simp_thms)
  then have d2: "distinct (map ?f ?xs)"
    by (simp only: map_map comp_def)
  have "mset (map ?f (sort_key ?f ?xs)) = mset (map ?f ?xs)"
    by simp
  then have "distinct (map ?f (sort_key ?f ?xs)) \<longleftrightarrow> distinct (map ?f ?xs)"
    by (rule mset_eq_imp_distinct_iff)
  then have d3: "distinct (map ?f (sort_key ?f ?xs))"
    using d2 by (rule iffD2)
  have "sorted (map ?f (sort_key ?f ?xs))"
    by (rule sorted_sort_key)
  then show ?thesis
    using d3 by (simp only: strict_sorted_iff simp_thms)
qed

text \<open>
  A schema that declares the properties \<open>b\<close>, \<open>1\<close> and \<open>a\<close>, in this order: the
  inputs of the export are \<open>1\<close>, \<open>b\<close> and \<open>a\<close>, since \<^verbatim>\<open>Object.entries\<close> lists
  the property named by an integer first.
\<close>

theorem export_order_counterexample:
  "map fst (declared_properties numbered_tool) = [''b'', ''1'', ''a''] \<and>
   map input_name (inputs (serialize_tool (example_request [] [] None) ''pick''
                             \<lparr>serverName = ''sigma'', tool = numbered_tool\<rparr>)) =
     [''1'', ''b'', ''a''] \<and>
   inputs (serialize_tool (example_request [] [] None) ''pick''
             \<lparr>serverName = ''sigma'', tool = numbered_tool\<rparr>) \<noteq>
     map declared_input (declared_properties numbered_tool)"
  by (simp add: serialize_tool_def Let_def tool_inputs_def declared_properties_def
      declared_input_def numbered_tool_def plain_schema_def enumerate_simps)

text \<open>
  Claim C7, as the code has it.  The record that the export derives for an entry of the
  registry has exactly one input per declared property of the tool's schema, with the
  property's type tag, or \<open>string\<close> when the tag is absent (or falsy).  The properties
  whose names are array indices (canonical decimal numerals below \<open>2\<^sup>3\<^sup>2 - 1\<close>) come
  first, in strictly ascending numeric order; the others follow in their declared
  order.  So the inputs are in declared order whenever no property is named by such a
  numeral.  Without inputs the method is \<open>GET\<close> and the body template is empty; with
  inputs the method is \<open>POST\<close> and the body template is the JSON text of the object
  that has one member per input, in the order of the inputs: the input's name with the
  value \<open>{{name}}\<close>.  The export holds this record under the tool's name when the
  name is not \<^verbatim>\<open>__proto__\<close>, and every record of the export is derived in this way
  from an entry of the registry.
\<close>

theorem export_inputs_and_method:
  assumes "(toolName, toolInfo) \<in> set reg" and "distinct (map fst reg)"
  shows "mset (inputs (serialize_tool req toolName toolInfo)) =
           mset (map declared_input (declared_properties (tool toolInfo))) \<and>
         filter (\<lambda>i. \<not> is_array_index (input_name i)) (inputs (serialize_tool req toolName toolInfo)) =
           map declared_input
             (filter (\<lambda>p. \<not> is_array_index (fst p)) (declared_properties (tool toolInfo))) \<and>
         inputs (serialize_tool req toolName toolInfo) =
           filter (\<lambda>i. is_array_index (input_name i)) (inputs (serialize_tool req toolName toolInfo)) @
           filter (\<lambda>i. \<not> is_array_index (input_name i)) (inputs (serialize_tool req toolName toolInfo)) \<and>
         sorted_wrt (<) (map (\<lambda>i. index_value (input_name i))
                   (filter (\<lambda>i. is_array_index (input_name i))
                      (inputs (serialize_tool req toolName toolInfo)))) \<and>
         ((\<forall>p \<in> set (declared_properties (tool toolInfo)). \<not> is_array_index (fst p)) \<longrightarrow>
            inputs (serialize_tool req toolName toolInfo) =
              map declared_input (declared_properties (tool toolInfo))) \<and>
         (declared_properties (tool toolInfo) = [] \<longrightarrow>
            http_method (serialize_tool req toolName toolInfo) = ''GET'' \<and>
            request_body (serialize_tool req toolName toolInfo) = []) \<and>
         (declared_properties (tool toolInfo) \<noteq> [] \<longrightarrow>
            http_method (serialize_tool req toolName toolInfo) = ''POST'' \<and>
            request_body (serialize_tool req toolName toolInfo) =
              ''{'' @ join '',''
                       (map (\<lambda>i. json_quote (input_name i) @ '':'' @
                                  json_quote (placeholder (input_name i)))
                            (inputs (serialize_tool req toolName toolInfo))) @ ''}'') \<and>
         (toolName \<noteq> ''__proto__'' \<longrightarrow>
            map_of (serialize_tools req reg) toolName = Some (serialize_tool req toolName toolInfo)) \<and>
         (\<forall>n r. (n, r) \<in> set (serialize_tools req reg) \<longrightarrow>
            (\<exists>info. (n, info) \<in> set reg \<and> r = serialize_tool req n info))"
proof -
  let ?t = "tool toolInfo"
  let ?r = "serialize_tool req toolName toolInfo"
  let ?D = "declared_properties ?t"
  let ?I = "\<lambda>i. is_array_index (input_name i)"
  note fi = filter_declared_input [of is_array_index]
  note fn = filter_declared_input [of "\<lambda>n. \<not> is_array_index n"]
  have ins: "inputs ?r = map declared_input (own_keys_order ?D)"
    by (simp only: serialize_tool_fields(1) tool_inputs_declared)
  have empty: "tool_inputs ?t = [] \<longleftrightarrow> ?D = []"
    using set_own_keys_order [of ?D]
    by (simp add: tool_inputs_declared set_empty [symmetric] del: set_own_keys_order set_empty)
  have a: "mset (inputs ?r) = mset (map declared_input ?D)"
    by (simp add: ins)
  have b: "filter (\<lambda>i. \<not> ?I i) (inputs ?r) =
      map declared_input (filter (\<lambda>p. \<not> is_array_index (fst p)) ?D)"
    by (simp only: ins fn own_keys_order_name_part)
  have c: "inputs ?r = filter ?I (inputs ?r) @ filter (\<lambda>i. \<not> ?I i) (inputs ?r)"
    using own_keys_order_parts [of ?D]
    by (simp only: ins fi fn map_append [symmetric])
  have "filter ?I (inputs ?r) =
      map declared_input (sort_key (\<lambda>p. index_value (fst p)) (filter (\<lambda>p. is_array_index (fst p)) ?D))"
    by (simp only: ins fi own_keys_order_index_part)
  then have d: "sorted_wrt (<) (map (\<lambda>i. index_value (input_name i)) (filter ?I (inputs ?r)))"
    using strictly_ascending_index_part [OF distinct_declared, of ?t]
    by (simp add: comp_def declared_input_def)
  have e: "(\<forall>p \<in> set ?D. \<not> is_array_index (fst p)) \<longrightarrow> inputs ?r = map declared_input ?D"
    by (simp add: ins own_keys_order_no_index)
  have f: "?D = [] \<longrightarrow> http_method ?r = ''GET'' \<and> request_body ?r = []"
    by (simp add: serialize_tool_fields(2,3) empty)
  have g: "?D \<noteq> [] \<longrightarrow>
      http_method ?r = ''POST'' \<and>
      request_body ?r =
        ''{'' @ join '',''
                 (map (\<lambda>i. json_quote (input_name i) @ '':'' @ json_quote (placeholder (input_name i)))
                      (inputs ?r)) @ ''}''"
    by (simp add: serialize_tool_fields empty)
  have h: "toolName \<noteq> ''__proto__'' \<longrightarrow> map_of (serialize_tools req reg) toolName = Some ?r"
    using assms by (simp add: serialize_tools_lookup)
  have i: "\<forall>n r. (n, r) \<in> set (serialize_tools req reg) \<longrightarrow>
      (\<exists>info. (n, info) \<in> set reg \<and> r = serialize_tool req n info)"
    using serialize_tools_member by blast
  show ?thesis
    by (intro conjI a b c d e f g h i)
qed

lemma quoted_inputs:
  "tool_inputs quoted_tool =
     [\<lparr>input_name = ''9'', input_type = JStr ''integer''\<rparr>,
      \<lparr>input_name = ''10'', input_type = JStr ''string''\<rparr>,
      \<lparr>input_name = ''b'', input_type = JStr ''boolean''\<rparr>,
      \<lparr>input_name = ''01'', input_type = JStr ''number''\<rparr>,
      \<lparr>input_name = quoted_name, input_type = JStr ''string''\<rparr>]"
  by (simp add: tool_inputs_def quoted_tool_def plain_schema_def quoted_name_def enumerate_simps)

lemma hex4_one: "hex4 (Suc 0) = ''0001''"
proof -
  have "replicate 3 CHR ''0'' = ''000''"
    by (simp add: numeral_eq_Suc)
  moreover have "radix_digits 16 (Suc 0) = ''1''"
    by (simp add: radix_digits.simps [of 16 "Suc 0"] digit_char_def)
  ultimately show ?thesis
    by (simp add: hex4_def padStart_def)
qed

lemma quoted_name_json:
  \<open>json_quote quoted_name = ''"q'' @ [CHR 0x5C] @ ''"'' @ [CHR 0x5C, CHR 0x5C, CHR 0x5C] @ ''n'' @ [CHR 0x5C] @ ''u0001"''\<close>
  by (simp add: json_quote_def json_escape_def quoted_name_def hex4_one)

lemma quoted_placeholder_json:
  \<open>json_quote (placeholder quoted_name) =
     ''"{{q'' @ [CHR 0x5C] @ ''"'' @ [CHR 0x5C, CHR 0x5C, CHR 0x5C] @ ''n'' @ [CHR 0x5C] @ ''u0001}}"''\<close>
  by (simp add: json_quote_def json_escape_def quoted_name_def hex4_one placeholder_def)

theorem export_inputs_and_method_witness:
  \<open>inputs (serialize_tool (example_request [] [] None) ''echo''
             \<lparr>serverName = ''alpha'', tool = echo_tool\<rparr>) =
     [\<lparr>input_name = ''text'', input_type = JStr ''string''\<rparr>,
      \<lparr>input_name = ''times'', input_type = JStr ''string''\<rparr>] \<and>
   http_method (serialize_tool (example_request [] [] None) ''sum''
                  \<lparr>serverName = ''sigma'', tool = sum_tool\<rparr>) = ''GET'' \<and>
   request_body (serialize_tool (example_request [] [] None) ''sum''
                   \<lparr>serverName = ''sigma'', tool = sum_tool\<rparr>) = [] \<and>
   map input_name (inputs (serialize_tool (example_request [] [] None) ''quote''
                             \<lparr>serverName = ''sigma'', tool = quoted_tool\<rparr>)) =
     [''9'', ''10'', ''b'', ''01'', quoted_name] \<and>
   map input_type (inputs (serialize_tool (example_request [] [] None) ''quote''
                             \<lparr>serverName = ''sigma'', tool = quoted_tool\<rparr>)) =
     [JStr ''integer'', JStr ''string'', JStr ''boolean'', JStr ''number'', JStr ''string''] \<and>
   http_method (serialize_tool (example_request [] [] None) ''quote''
                  \<lparr>serverName = ''sigma'', tool = quoted_tool\<rparr>) = ''POST'' \<and>
   request_body (serialize_tool (example_request [] [] None) ''quote''
                   \<lparr>serverName = ''sigma'', tool = quoted_tool\<rparr>) =
     ''{"9":"{{9}}","10":"{{10}}","b":"{{b}}","01":"{{01}}","q'' @ [CHR 0x5C] @ ''"'' @
     [CHR 0x5C, CHR 0x5C, CHR 0x5C] @ ''n'' @ [CHR 0x5C] @ ''u0001":"{{q'' @ [CHR 0x5C] @ ''"'' @
     [CHR 0x5C, CHR 0x5C, CHR 0x5C] @ ''n'' @ [CHR 0x5C] @ ''u0001}}"}'' \<and>
   map_of (serialize_tools (example_request [] [] None) export_registry) ''quote'' =
     Some (serialize_tool (example_request [] [] None) ''quote''
             \<lparr>serverName = ''sigma'', tool = quoted_tool\<rparr>) \<and>
   map fst (serialize_tools (example_request [] [] None) export_registry) =
     [''echo'', ''sum'', ''quote''] \<and>
   (\<exists>info. (''quote'', info) \<in> set export_registry \<and>
      serialize_tool (example_request [] [] None) ''quote''
        \<lparr>serverName = ''sigma'', tool = quoted_tool\<rparr> =
      serialize_tool (example_request [] [] None) ''quote'' info)\<close>
proof -
  let ?req = "example_request [] [] None"
  let ?e = "\<lparr>serverName = ''alpha'', tool = echo_tool\<rparr>"
  let ?s = "\<lparr>serverName = ''sigma'', tool = sum_tool\<rparr>"
  let ?q = "\<lparr>serverName = ''sigma'', tool = quoted_tool\<rparr>"
  have m1: "(''echo'', ?e) \<in> set export_registry" and m2: "(''sum'', ?s) \<in> set export_registry"
    and m3: "(''quote'', ?q) \<in> set export_registry"
    and d: "distinct (map fst export_registry)"
    by (simp_all add: export_registry_def)
  have pe: "declared_properties echo_tool =
      [(''text'', \<lparr>schema_type = Some (JStr ''string''), schema_description = Some ''What to echo''\<rparr>),
       (''times'', \<lparr>schema_type = None, schema_description = None\<rparr>)]"
    by (simp add: declared_properties_def echo_tool_def)
  have ps: "declared_properties sum_tool = []"
    by (simp add: declared_properties_def sum_tool_def)
  have pq: "declared_properties (tool ?q) \<noteq> []"
    by (simp add: declared_properties_def quoted_tool_def)
  note e = export_inputs_and_method [OF m1 d, of ?req]
  note s = export_inputs_and_method [OF m2 d, of ?req]
  note q = export_inputs_and_method [OF m3 d, of ?req]
  have names: "\<forall>p \<in> set (declared_properties (tool ?e)). \<not> is_array_index (fst p)"
    by (simp add: pe is_array_index_def is_digit_def)
  have e1: "inputs (serialize_tool ?req ''echo'' ?e) =
      [\<lparr>input_name = ''text'', input_type = JStr ''string''\<rparr>,
       \<lparr>input_name = ''times'', input_type = JStr ''string''\<rparr>]"
    using e [THEN conjunct2, THEN conjunct2, THEN conjunct2, THEN conjunct2, THEN conjunct1,
        THEN mp, OF names]
    by (simp add: pe declared_input_def)
  have s1: "http_method (serialize_tool ?req ''sum'' ?s) = ''GET'' \<and>
      request_body (serialize_tool ?req ''sum'' ?s) = []"
    using s [THEN conjunct2, THEN conjunct2, THEN conjunct2, THEN conjunct2, THEN conjunct2,
        THEN conjunct1]
    by (simp add: ps)
  have qi: "inputs (serialize_tool ?req ''quote'' ?q) = tool_inputs quoted_tool"
    by (simp add: serialize_tool_def Let_def)
  note c = q [THEN conjunct2, THEN conjunct2, THEN conjunct2, THEN conjunct2, THEN conjunct2,
      THEN conjunct2, THEN conjunct1, THEN mp, OF pq]
  have q2: "http_method (serialize_tool ?req ''quote'' ?q) = ''POST''"
    using c by (rule conjunct1)
  have q1: "map input_name (inputs (serialize_tool ?req ''quote'' ?q)) =
      [''9'', ''10'', ''b'', ''01'', quoted_name]"
    by (simp add: qi quoted_inputs)
  have q1': "map input_type (inputs (serialize_tool ?req ''quote'' ?q)) =
      [JStr ''integer'', JStr ''string'', JStr ''boolean'', JStr ''number'', JStr ''string'']"
    by (simp add: qi quoted_inputs)
  have "request_body (serialize_tool ?req ''quote'' ?q) =
      ''{'' @ join '',''
               (map (\<lambda>i. json_quote (input_name i) @ '':'' @ json_quote (placeholder (input_name i)))
                    (tool_inputs quoted_tool)) @ ''}''"
    using c [THEN conjunct2] by (simp only: qi)
  also have \<open>\<dots> =
     ''{"9":"{{9}}","10":"{{10}}","b":"{{b}}","01":"{{01}}","q'' @ [CHR 0x5C] @ ''"'' @
     [CHR 0x5C, CHR 0x5C, CHR 0x5C] @ ''n'' @ [CHR 0x5C] @ ''u0001":"{{q'' @ [CHR 0x5C] @ ''"'' @
     [CHR 0x5C, CHR 0x5C, CHR 0x5C] @ ''n'' @ [CHR 0x5C] @ ''u0001}}"}''\<close>
    by (simp add: quoted_inputs join_def quoted_name_json quoted_placeholder_json)
       (simp add: json_quote_def json_escape_def placeholder_def)
  finally have q3: \<open>request_body (serialize_tool ?req ''quote'' ?q) =
     ''{"9":"{{9}}","10":"{{10}}","b":"{{b}}","01":"{{01}}","q'' @ [CHR 0x5C] @ ''"'' @
     [CHR 0x5C, CHR 0x5C, CHR 0x5C] @ ''n'' @ [CHR 0x5C] @ ''u0001":"{{q'' @ [CHR 0x5C] @ ''"'' @
     [CHR 0x5C, CHR 0x5C, CHR 0x5C] @ ''n'' @ [CHR 0x5C] @ ''u0001}}"}''\<close> .
  have q4: "map_of (serialize_tools ?req export_registry) ''quote'' = Some (serialize_tool ?req ''quote'' ?q)"
    using q [THEN conjunct2, THEN conjunct2, THEN conjunct2, THEN conjunct2, THEN conjunct2,
        THEN conjunct2, THEN conjunct2, THEN conjunct1]
    by simp
  have keys: "map fst (serialize_tools ?req export_registry) = [''echo'', ''sum'', ''quote'']"
    by (simp add: serialize_tools_def export_registry_def obj_set_def)
  have "(''quote'', serialize_tool ?req ''quote'' ?q) \<in> set (serialize_tools ?req export_registry)"
    using q4 by (rule map_of_SomeD)
  then have from_registry: "\<exists>info. (''quote'', info) \<in> set export_registry \<and>
      serialize_tool ?req ''quote'' ?q = serialize_tool ?req ''quote'' info"
    using q [THEN conjunct2, THEN conjunct2, THEN conjunct2, THEN conjunct2, THEN conjunct2,
        THEN conjunct2, THEN conjunct2, THEN conjunct2, THEN spec, THEN spec, THEN mp]
    by simp
  show ?thesis
    by (intro conjI e1 s1 [THEN conjunct1] s1 [THEN conjunct2] q1 q1' q2 q3 q4 keys from_registry)
qed

subsection \<open>Further properties of the handlers\<close>

text \<open>
  A request without the configured key is answered with status 401 by every protected
  route, and nothing else happens: the state is unchanged, so no backend is called.
\<close>

theorem unauthenticated_rejected:
  assumes "providedKey req \<noteq> Some (JStr apiKey)"
  shows "get_tool apiKey req s = (Response 401 (ErrorJson ''Invalid or missing API key''), s) \<and>
         post_tool apiKey req s = (Response 401 (ErrorJson ''Invalid or missing API key''), s) \<and>
         get_tools apiKey req s = (Response 401 (ErrorJson ''Invalid or missing API key''), s) \<and>
         get_serialize_tools apiKey req s =
           (Response 401 (ErrorJson ''Invalid or missing API key''), s)"
  using assms
  by (simp add: get_tool_def post_tool_def get_tools_def get_serialize_tools_def
      authenticateApiKey_def split: option.splits)

theorem unauthenticated_rejected_witness:
  "get_tool ''secret''
     (example_request [(''x-api-key'', ''guess'')]
        [(''tool'', JStr ''echo''), (''api_key'', JStr ''secret'')] None)
     example_state =
   (Response 401 (ErrorJson ''Invalid or missing API key''), example_state)"
proof -
  have "providedKey (example_request [(''x-api-key'', ''guess'')]
        [(''tool'', JStr ''echo''), (''api_key'', JStr ''secret'')] None) \<noteq> Some (JStr ''secret'')"
    by (simp add: providedKey_def example_request_def)
  from unauthenticated_rejected [OF this, of example_state] show ?thesis
    by (rule conjunct1)
qed

text \<open>
  An authenticated request whose selector is absent, empty or starts with a space has no
  tool name: both tool routes answer with status 400 and call no backend.
\<close>

theorem missing_tool_name:
  assumes "providedKey req = Some (JStr apiKey)" and "apiKey \<noteq> []"
      and "map_of (query req) ''tool'' = None \<or>
           (\<exists>q. map_of (query req) ''tool'' = Some (JStr q) \<and> (q = [] \<or> hd q = CHR '' ''))"
  shows "get_tool apiKey req s =
           (Response 400 (ErrorJson ''Tool name is required as query parameter''), s) \<and>
         post_tool apiKey req s =
           (Response 400 (ErrorJson ''Tool name is required as query parameter''), s)"
proof -
  have "\<exists>P. parseToolAndParams (map_of (query req) ''tool'') = Inr (None, P) \<or>
            parseToolAndParams (map_of (query req) ''tool'') = Inr (Some [], P)"
  proof -
    from assms(3) consider "map_of (query req) ''tool'' = None"
      | "map_of (query req) ''tool'' = Some (JStr [])"
      | q where "map_of (query req) ''tool'' = Some (JStr (CHR '' '' # q))"
      by (metis list.collapse)
    then show ?thesis
    proof cases
      case 1
      then show ?thesis by simp
    next
      case 2
      then show ?thesis by simp
    next
      case 3
      then show ?thesis
        using split_nonempty [of "CHR '' ''" q] by (auto split: list.splits)
    qed
  qed
  then show ?thesis
    using assms(1,2)
    by (auto simp: get_tool_def post_tool_def authenticated get_tool_handler_def
        post_tool_handler_def)
qed

theorem missing_tool_name_witness:
  "get_tool ''secret''
     (example_request [(''x-api-key'', ''secret'')] [(''tool'', JStr '' text=hi'')] None)
     example_state =
   (Response 400 (ErrorJson ''Tool name is required as query parameter''), example_state)"
proof -
  let ?req = "example_request [(''x-api-key'', ''secret'')] [(''tool'', JStr '' text=hi'')] None"
  have k: "providedKey ?req = Some (JStr ''secret'')"
    by (simp add: providedKey_def example_request_def)
  have t: "map_of (query ?req) ''tool'' = None \<or>
           (\<exists>q. map_of (query ?req) ''tool'' = Some (JStr q) \<and> (q = [] \<or> hd q = CHR '' ''))"
    by (simp add: example_request_def)
  from missing_tool_name [OF k _ t, of example_state] show ?thesis
    by simp
qed

text \<open>
  A registered tool whose backend is not among the connected clients makes
  \<^verbatim>\<open>invokeTool\<close> throw \<^verbatim>\<open>MCP server '<name>' not connected\<close>, and no backend is
  called.
\<close>

theorem backend_unavailable:
  assumes "map_of (availableTools s) toolName = Some toolInfo"
      and "map_of (mcpClients s) (serverName toolInfo) = None"
  shows "fst (invokeTool toolName arguments s) =
           Inl (Error (''MCP server '' @ [CHR 0x27] @ serverName toolInfo @ [CHR 0x27] @
                       '' not connected'')) \<and>
         backend_calls (snd (invokeTool toolName arguments s)) = backend_calls s"
  using assms by (simp add: invokeTool_not_connected logError_def)

theorem backend_unavailable_witness:
  "fst (invokeTool ''echo'' [] (example_state\<lparr>mcpClients := []\<rparr>)) =
     Inl (Error (''MCP server '' @ [CHR 0x27] @ ''alpha'' @ [CHR 0x27] @ '' not connected'')) \<and>
   backend_calls (snd (invokeTool ''echo'' [] (example_state\<lparr>mcpClients := []\<rparr>))) = []"
proof -
  let ?s = "example_state\<lparr>mcpClients := []\<rparr>"
  have a: "map_of (availableTools ?s) ''echo'' = Some \<lparr>serverName = ''alpha'', tool = echo_tool\<rparr>"
    by (simp add: example_state_def)
  have b: "map_of (mcpClients ?s) (serverName \<lparr>serverName = ''alpha'', tool = echo_tool\<rparr>) = None"
    by simp
  from backend_unavailable [OF a b, of "[]"] show ?thesis
    by (simp add: example_state_def)
qed

text \<open>
  When the backend answers, \<^verbatim>\<open>invokeTool\<close> returns the success record with the
  backend's content, the tool's name, the backend's name and the elapsed time between the
  two clock readings, after exactly one call of the backend with the tool's name and the
  arguments as given.
\<close>

theorem invocation_success:
  assumes "map_of (availableTools s) toolName = Some toolInfo"
      and "map_of (mcpClients s) (serverName toolInfo) = Some cl"
      and "callTool cl toolName arguments = Resolved content"
  shows "fst (invokeTool toolName arguments s) =
           Inr \<lparr>success = True, result = content, res_tool = toolName,
                res_server = serverName toolInfo,
                executionTime = clock s (Suc (clock_reads s)) - clock s (clock_reads s)\<rparr> \<and>
         backend_calls (snd (invokeTool toolName arguments s)) =
           backend_calls s @ [(serverName toolInfo, toolName, arguments)]"
  using assms invokeTool_resolved by simp

theorem invocation_success_witness:
  "fst (invokeTool ''echo'' [(''text'', JStr ''hi'')] example_state) =
     Inr \<lparr>success = True, result = Some (JObj [(''text'', JStr ''hi'')]), res_tool = ''echo'',
          res_server = ''alpha'', executionTime = 7\<rparr> \<and>
   backend_calls (snd (invokeTool ''echo'' [(''text'', JStr ''hi'')] example_state)) =
     [(''alpha'', ''echo'', [(''text'', JStr ''hi'')])]"
proof -
  have a: "map_of (availableTools example_state) ''echo'' =
      Some \<lparr>serverName = ''alpha'', tool = echo_tool\<rparr>"
    by (simp add: example_state_def)
  have b: "map_of (mcpClients example_state) (serverName \<lparr>serverName = ''alpha'', tool = echo_tool\<rparr>) =
      Some echo_client"
    by (simp add: example_state_def)
  have c: "callTool echo_client ''echo'' [(''text'', JStr ''hi'')] =
      Resolved (Some (JObj [(''text'', JStr ''hi'')]))"
    by (simp add: echo_client_def)
  from invocation_success [OF a b c] show ?thesis
    by (simp add: example_state_def)
qed

text \<open>
  A tool named \<^verbatim>\<open>__proto__\<close> is in the registry (a \<^verbatim>\<open>Map\<close>) and in the listing, and is
  missing from the export, which collects the records in a plain object.
\<close>

theorem export_drops_proto:
  "serialize_tools req [(''__proto__'', toolInfo)] = [] \<and>
   map listing_name (list_tools [(''__proto__'', toolInfo)]) = [''__proto__'']"
  by (simp add: serialize_tools_def obj_set_def list_tools_def)

end
